theory Spec2Isabelle
  imports Main "HOL-Library.Sublist" "HOL-Library.Code_Target_Nat"
begin

section \<open>JavaScript strings\<close>

text \<open>
  A JavaScript string is a sequence of UTF-16 code units.  The string literals of
  \<^verbatim>\<open>services/doubanCrawler.ts\<close> that are not ASCII are written out as their code units;
  \<open>asc\<close> embeds an ASCII literal.
\<close>

type_synonym jstring = "nat list"

definition asc :: "string \<Rightarrow> jstring" where
  "asc s = map of_char s"

text \<open>\<^verbatim>\<open>String.prototype.includes\<close>: the argument occurs as a contiguous run.\<close>

fun str_includes :: "jstring \<Rightarrow> jstring \<Rightarrow> bool" where
  "str_includes [] sub = (sub = [])"
| "str_includes (c # cs) sub = (prefix sub (c # cs) \<or> str_includes cs sub)"

text \<open>
  The code units that \<^verbatim>\<open>trim\<close> strips and that \<^verbatim>\<open>\s\<close> matches: WhiteSpace and
  LineTerminator of ECMAScript.
\<close>

definition is_ws :: "nat \<Rightarrow> bool" where
  "is_ws c \<longleftrightarrow>
     (9 \<le> c \<and> c \<le> 13) \<or> c = 32 \<or> c = 160 \<or> c = 0x1680 \<or> (0x2000 \<le> c \<and> c \<le> 0x200A) \<or>
     c = 0x2028 \<or> c = 0x2029 \<or> c = 0x202F \<or> c = 0x205F \<or> c = 0x3000 \<or> c = 0xFEFF"

definition trim :: "jstring \<Rightarrow> jstring" where
  "trim s = rev (dropWhile is_ws (rev (dropWhile is_ws s)))"

text \<open>\<^verbatim>\<open>s.replace(pat, rep)\<close> with a string pattern: the first occurrence only.\<close>

fun replace_first :: "jstring \<Rightarrow> jstring \<Rightarrow> jstring \<Rightarrow> jstring" where
  "replace_first pat rep [] = (if pat = [] then rep else [])"
| "replace_first pat rep (c # cs) =
     (if prefix pat (c # cs) then rep @ drop (length pat) (c # cs)
      else c # replace_first pat rep cs)"

text \<open>
  \<^verbatim>\<open>s.split(/\s+/)\<close>: the pieces between maximal runs of white space; a string that
  begins or ends with white space has an empty first or last piece.
\<close>

function split_ws :: "jstring \<Rightarrow> jstring \<Rightarrow> jstring list" where
  "split_ws cur [] = [rev cur]"
| "split_ws cur (c # cs) =
     (if is_ws c then rev cur # split_ws [] (dropWhile is_ws cs)
      else split_ws (c # cur) cs)"
  by pat_completeness auto
termination
  by (relation "measure (\<lambda>(cur, s). length s)") (auto simp: length_dropWhile_le less_Suc_eq_le)

text \<open>Decimal digits, \<^verbatim>\<open>\d\<close> of a regular expression without the unicode flag.\<close>

definition is_digit :: "nat \<Rightarrow> bool" where
  "is_digit c \<longleftrightarrow> 48 \<le> c \<and> c \<le> 57"

text \<open>\<^verbatim>\<open>parseInt\<close> of a one-digit string.\<close>

definition parseInt :: "nat \<Rightarrow> int" where
  "parseInt d = int d - 48"

text \<open>
  \<^verbatim>\<open>/rating(\d)-t/\<close> tried at the head of the string: the captured digit.
\<close>

definition rating_here :: "jstring \<Rightarrow> nat option" where
  "rating_here s =
     (if prefix (asc ''rating'') s then
        (case drop 6 s of
           [] \<Rightarrow> None
         | d # rest \<Rightarrow> if is_digit d \<and> prefix (asc ''-t'') rest then Some d else None)
      else None)"

text \<open>
  \<^verbatim>\<open>s.match(/rating(\d)-t/)\<close>: the leftmost position at which the pattern matches,
  \<open>None\<close> for JavaScript's \<^verbatim>\<open>null\<close>.
\<close>

fun match_rating :: "jstring \<Rightarrow> nat option" where
  "match_rating [] = None"
| "match_rating (c # cs) =
     (case rating_here (c # cs) of Some d \<Rightarrow> Some d | None \<Rightarrow> match_rating cs)"

text \<open>Template-literal interpolation of a non-negative integer: its decimal digits.\<close>

fun digits :: "nat \<Rightarrow> jstring" where
  "digits n = (if n < 10 then [48 + n] else digits (n div 10) @ [48 + n mod 10])"

declare digits.simps [simp del]

section \<open>Errors\<close>

text \<open>
  A thrown value is an error object, of which the program reads the \<^verbatim>\<open>message\<close> only.
  The messages of the errors that the engine itself throws are the engine's; those of V8
  stand for them.
\<close>

datatype jserror =
    Error (message: jstring)
  | TypeError (message: jstring)
  | RangeError (message: jstring)
  | URIError (message: jstring)

text \<open>Calling a value that is not a function.\<close>

definition not_a_function :: "string \<Rightarrow> jserror" where
  "not_a_function what = TypeError (asc what @ asc '' is not a function'')"

text \<open>One statement after another: the second is not reached when the first throws.\<close>

definition andThen :: "jserror + 'a \<Rightarrow> ('a \<Rightarrow> jserror + 'b) \<Rightarrow> jserror + 'b" where
  "andThen m f = (case m of Inl e \<Rightarrow> Inl e | Inr x \<Rightarrow> f x)"

text \<open>
  \<^verbatim>\<open>xs.push(...ys)\<close> passes every member of \<open>ys\<close> as an argument of one call.  A call with
  more arguments than the stack of the engine holds throws a \<^verbatim>\<open>RangeError\<close>, and \<open>xs\<close>
  stays as it was.  How many arguments that is depends on the engine and on the place of
  the call: it is a parameter of the model, for each of the two places where the program
  spreads an array.
\<close>

datatype call_site = TagsPush | ReviewsPush

type_synonym engine = "call_site \<Rightarrow> nat"

definition push_spread :: "engine \<Rightarrow> call_site \<Rightarrow> 'a list \<Rightarrow> 'a list \<Rightarrow> jserror + 'a list" where
  "push_spread E site xs ys =
     (if length ys > E site then Inl (RangeError (asc ''Maximum call stack size exceeded''))
      else Inr (xs @ ys))"

section \<open>The document tree\<close>

text \<open>
  \<^verbatim>\<open>DOMParser.parseFromString(html, "text/html")\<close> is the browser's HTML parser: it
  returns a document for every string.  The extraction is modelled from the document on.
  An element has an interface, a local name, its \<^verbatim>\<open>class\<close> attribute when it has one, and
  child nodes; the program reads no other attribute.  \<open>Other\<close> is a comment, a doctype
  or a processing instruction.

  The interface of an element says what the program gets when it reads a property of the
  element.  An SVG element differs from an HTML or MathML element in its \<^verbatim>\<open>className\<close>.
  A \<^verbatim>\<open>form\<close> element answers a property whose name is the \<^verbatim>\<open>name\<close> or \<^verbatim>\<open>id\<close> of one
  of its controls with that control, before its built-in properties (the interface
  \<^verbatim>\<open>HTMLFormElement\<close> is \<^verbatim>\<open>LegacyOverrideBuiltIns\<close>): these names come with the element.
  The document object does the same for the names that its \<^verbatim>\<open>img\<close>, \<^verbatim>\<open>form\<close>,
  \<^verbatim>\<open>iframe\<close>, \<^verbatim>\<open>embed\<close> and \<^verbatim>\<open>object\<close> elements give it (as
  \<^verbatim>\<open><img name=querySelector>\<close> does): they are the field \<open>named\<close> of the document.
\<close>

datatype interface = HTMLElement | HTMLFormElement "jstring list" | SVGElement | MathMLElement

datatype node =
    Element interface jstring "jstring option" "node list"
  | Text jstring
  | Other

record document =
  quirks :: bool
  named :: "jstring list"
  childNodes :: "node list"

fun is_element :: "node \<Rightarrow> bool" where
  "is_element (Element ns n c ks) = True"
| "is_element _ = False"

fun interfaceOf :: "node \<Rightarrow> interface" where
  "interfaceOf (Element ns n c ks) = ns"
| "interfaceOf _ = HTMLElement"

text \<open>The property \<open>p\<close> of the element is not the built-in one.\<close>

definition shadowed :: "node \<Rightarrow> jstring \<Rightarrow> bool" where
  "shadowed e p =
     (case interfaceOf e of HTMLFormElement names \<Rightarrow> List.member names p | _ \<Rightarrow> False)"

fun localName :: "node \<Rightarrow> jstring" where
  "localName (Element ns n c ks) = n"
| "localName _ = []"

fun classAttr :: "node \<Rightarrow> jstring option" where
  "classAttr (Element ns n c ks) = c"
| "classAttr _ = None"

text \<open>
  \<^verbatim>\<open>textContent\<close> of an element: the data of its text descendants in tree order;
  comments contribute nothing.
\<close>

fun textContent :: "node \<Rightarrow> jstring" where
  "textContent (Element ns n c ks) = concat (map textContent ks)"
| "textContent (Text t) = t"
| "textContent Other = []"

text \<open>
  An element is handled together with its ancestors, the nearest first: a selector given to
  \<^verbatim>\<open>querySelector\<close> of an element is matched against the whole document, and only the
  result is confined to the element's descendants.
\<close>

type_synonym element = "node list \<times> node"

text \<open>The elements of a subtree in tree order, its root included.\<close>

fun subtree :: "node list \<Rightarrow> node \<Rightarrow> element list" where
  "subtree anc (Element ns n c ks) =
     (anc, Element ns n c ks) # concat (map (subtree (Element ns n c ks # anc)) ks)"
| "subtree anc (Text t) = []"
| "subtree anc Other = []"

fun descendants :: "element \<Rightarrow> element list" where
  "descendants (anc, Element ns n c ks) = concat (map (subtree (Element ns n c ks # anc)) ks)"
| "descendants (anc, _) = []"

subsection \<open>Selectors\<close>

text \<open>
  The class attribute is a set of tokens separated by ASCII white space.  A class selector
  compares tokens exactly, and ASCII case-insensitively in a document in quirks mode.
\<close>

definition is_ascii_ws :: "nat \<Rightarrow> bool" where
  "is_ascii_ws c \<longleftrightarrow> c = 9 \<or> c = 10 \<or> c = 12 \<or> c = 13 \<or> c = 32"

fun tokens_acc :: "jstring \<Rightarrow> jstring \<Rightarrow> jstring list" where
  "tokens_acc cur [] = (if cur = [] then [] else [rev cur])"
| "tokens_acc cur (c # cs) =
     (if is_ascii_ws c then (if cur = [] then [] else [rev cur]) @ tokens_acc [] cs
      else tokens_acc (c # cur) cs)"

definition class_tokens :: "node \<Rightarrow> jstring list" where
  "class_tokens e = (case classAttr e of None \<Rightarrow> [] | Some v \<Rightarrow> tokens_acc [] v)"

definition ascii_lower :: "nat \<Rightarrow> nat" where
  "ascii_lower c = (if 65 \<le> c \<and> c \<le> 90 then c + 32 else c)"

definition has_class :: "bool \<Rightarrow> jstring \<Rightarrow> node \<Rightarrow> bool" where
  "has_class q c e =
     (if q then list_ex (\<lambda>t. map ascii_lower t = map ascii_lower c) (class_tokens e)
      else list_ex (\<lambda>t. t = c) (class_tokens e))"

text \<open>
  The simple selectors of the program: a type selector, a class selector, and
  \<^verbatim>\<open>[class^="..."]\<close>, which holds when the attribute is present and its whole value
  begins with the given non-empty string.
\<close>

datatype simple = Tag jstring | Class jstring | ClassBegins jstring

fun simple_ok :: "bool \<Rightarrow> simple \<Rightarrow> node \<Rightarrow> bool" where
  "simple_ok q (Tag t) e = (is_element e \<and> localName e = t)"
| "simple_ok q (Class c) e = has_class q c e"
| "simple_ok q (ClassBegins p) e =
     (case classAttr e of None \<Rightarrow> False | Some v \<Rightarrow> p \<noteq> [] \<and> prefix p v)"

text \<open>
  A complex selector \<^verbatim>\<open>s1 s2 ... sn\<close> (descendant combinators) is the list
  \<open>[s1, ..., sn]\<close>.  \<open>anc_match\<close> finds \<open>s(n-1), ..., s1\<close> in this order among the
  ancestors, going outwards.
\<close>

fun anc_match :: "bool \<Rightarrow> simple list \<Rightarrow> node list \<Rightarrow> bool" where
  "anc_match q [] anc = True"
| "anc_match q (s # ss) [] = False"
| "anc_match q (s # ss) (a # anc) =
     ((simple_ok q s a \<and> anc_match q ss anc) \<or> anc_match q (s # ss) anc)"

definition complex_ok :: "bool \<Rightarrow> simple list \<Rightarrow> element \<Rightarrow> bool" where
  "complex_ok q sel x =
     (case rev sel of [] \<Rightarrow> False | s # ss \<Rightarrow> simple_ok q s (snd x) \<and> anc_match q ss (fst x))"

text \<open>A selector list \<^verbatim>\<open>c1, c2\<close> holds when one of its members does.\<close>

definition selects :: "bool \<Rightarrow> simple list list \<Rightarrow> element \<Rightarrow> bool" where
  "selects q sels x = list_ex (\<lambda>sel. complex_ok q sel x) sels"

definition querySelector :: "bool \<Rightarrow> simple list list \<Rightarrow> element \<Rightarrow> element option" where
  "querySelector q sels item = List.find (selects q sels) (descendants item)"

definition querySelectorAll :: "simple list list \<Rightarrow> document \<Rightarrow> element list" where
  "querySelectorAll sels doc =
     filter (selects (quirks doc) sels) (concat (map (subtree []) (childNodes doc)))"

section \<open>parseDoubanPage\<close>

datatype category = Movie | Book | Music

text \<open>
  Modelled from the spec: the declaration of \<^verbatim>\<open>ReviewItem\<close> (imported from
  \<^verbatim>\<open>../types\<close>) is not among the sources.  Its fields are those of the specification's
  ReviewRecord, which are the ones that \<^verbatim>\<open>parseDoubanPage\<close> fills in.
\<close>

record ReviewItem =
  title :: jstring
  rating :: int
  comment :: jstring
  date :: jstring
  category :: category
  tags :: "jstring list"

text \<open>
  \<^verbatim>\<open>item.querySelector(...)\<close>: the call throws when a control of the item, a form, is
  named \<^verbatim>\<open>querySelector\<close>.
\<close>

definition item_querySelector ::
  "bool \<Rightarrow> simple list list \<Rightarrow> element \<Rightarrow> jserror + element option" where
  "item_querySelector q sels item =
     (if shadowed (snd item) (asc ''querySelector'')
      then Inl (not_a_function ''item.querySelector'')
      else Inr (querySelector q sels item))"

text \<open>
  \<^verbatim>\<open>a || b\<close> on two results of \<^verbatim>\<open>querySelector\<close>: \<open>b\<close>, which is evaluated then only,
  when \<open>a\<close> is \<^verbatim>\<open>null\<close>.
\<close>

definition orElse :: "element option \<Rightarrow> jserror + element option \<Rightarrow> jserror + element option" where
  "orElse a b = (case a of Some x \<Rightarrow> Inr (Some x) | None \<Rightarrow> b)"

text \<open>
  \<^verbatim>\<open>el?.textContent?.trim() || ""\<close>.  When a control of the element, a form, is named
  \<^verbatim>\<open>textContent\<close>, the property is that control, which has no \<^verbatim>\<open>trim\<close>.
\<close>

definition trimmedText :: "element option \<Rightarrow> jserror + jstring" where
  "trimmedText el =
     (case el of
        None \<Rightarrow> Inr []
      | Some x \<Rightarrow>
          if shadowed (snd x) (asc ''textContent'') then Inl (not_a_function ''textContent.trim'')
          else Inr (trim (textContent (snd x))))"

text \<open>1. \<^verbatim>\<open>.title a\<close>, or else \<^verbatim>\<open>.info h2 a\<close>.\<close>

definition resolveTitle :: "bool \<Rightarrow> element \<Rightarrow> jserror + jstring" where
  "resolveTitle q item =
     andThen (item_querySelector q [[Class (asc ''title''), Tag (asc ''a'')]] item) (\<lambda>a.
     andThen (orElse a (item_querySelector q
                          [[Class (asc ''info''), Tag (asc ''h2''), Tag (asc ''a'')]] item))
       trimmedText)"

text \<open>
  2. \<^verbatim>\<open>ratingSpan.className.match(/rating(\d)-t/)\<close>.  \<^verbatim>\<open>className\<close> of an HTML or MathML
  element is the value of its class attribute, the empty string without one.  That of an
  SVG element is an \<^verbatim>\<open>SVGAnimatedString\<close> object, and that of a form with a control named
  \<^verbatim>\<open>className\<close> is the control: neither has a \<^verbatim>\<open>match\<close>, and the call throws a
  \<^verbatim>\<open>TypeError\<close>.
\<close>

definition className :: "node \<Rightarrow> jstring" where
  "className e = (case classAttr e of None \<Rightarrow> [] | Some v \<Rightarrow> v)"

definition className_match :: "node \<Rightarrow> jserror + nat option" where
  "className_match e =
     (if interfaceOf e = SVGElement \<or> shadowed e (asc ''className'')
      then Inl (not_a_function ''ratingSpan.className.match'')
      else Inr (match_rating (className e)))"

definition resolveRating :: "bool \<Rightarrow> element \<Rightarrow> jserror + int" where
  "resolveRating q item =
     andThen (item_querySelector q [[ClassBegins (asc ''rating'')]] item) (\<lambda>ratingSpan.
       case ratingSpan of
         None \<Rightarrow> Inr 0
       | Some x \<Rightarrow>
           (case className_match (snd x) of
              Inl e \<Rightarrow> Inl e
            | Inr None \<Rightarrow> Inr 0
            | Inr (Some d) \<Rightarrow> Inr (parseInt d)))"

text \<open>3. \<^verbatim>\<open>.comment\<close>, or else \<^verbatim>\<open>.short-note\<close>.\<close>

definition resolveComment :: "bool \<Rightarrow> element \<Rightarrow> jserror + jstring" where
  "resolveComment q item =
     andThen (item_querySelector q [[Class (asc ''comment'')]] item) (\<lambda>a.
     andThen (orElse a (item_querySelector q [[Class (asc ''short-note'')]] item))
       trimmedText)"

text \<open>4. \<^verbatim>\<open>.date\<close>\<close>

definition resolveDate :: "bool \<Rightarrow> element \<Rightarrow> jserror + jstring" where
  "resolveDate q item =
     andThen (item_querySelector q [[Class (asc ''date'')]] item) trimmedText"

text \<open>
  5. \<^verbatim>\<open>.tags\<close>, without the first occurrence of the label, split at white space; the
  pieces are spread into one call of \<^verbatim>\<open>push\<close>.
\<close>

definition tag_label :: jstring where
  "tag_label = [0x6807, 0x7B7E] @ asc '': ''"

definition resolveTags :: "engine \<Rightarrow> bool \<Rightarrow> element \<Rightarrow> jserror + jstring list" where
  "resolveTags E q item =
     andThen (item_querySelector q [[Class (asc ''tags'')]] item) (\<lambda>tagEl.
       case tagEl of
         None \<Rightarrow> Inr []
       | Some x \<Rightarrow>
           if shadowed (snd x) (asc ''textContent'')
           then Inl (not_a_function ''tagEl.textContent.replace'')
           else if textContent (snd x) = [] then Inr []
           else (let tagText = trim (replace_first tag_label [] (textContent (snd x)))
                 in if tagText = [] then Inr []
                    else push_spread E TagsPush [] (split_ws [] tagText)))"

text \<open>
  The body of the \<^verbatim>\<open>try\<close> block, for one item: the array \<open>data\<close> after it, or the error
  thrown in it.
\<close>

definition extractItem ::
  "engine \<Rightarrow> bool \<Rightarrow> category \<Rightarrow> element \<Rightarrow> ReviewItem list \<Rightarrow> jserror + ReviewItem list" where
  "extractItem E q cat item data =
     andThen (resolveTitle q item) (\<lambda>the_title.
     andThen (resolveRating q item) (\<lambda>the_rating.
     andThen (resolveComment q item) (\<lambda>the_comment.
     andThen (resolveDate q item) (\<lambda>the_date.
     andThen (resolveTags E q item) (\<lambda>the_tags.
       if the_title \<noteq> []
       then Inr (data @ [\<lparr>title = the_title, rating = the_rating,
                          comment = the_comment, date = the_date,
                          category = cat, tags = the_tags\<rparr>])
       else Inr data)))))"

text \<open>
  The callback given to \<^verbatim>\<open>items.forEach\<close>: the \<^verbatim>\<open>catch\<close> clause writes to the console and
  leaves \<open>data\<close> as it was.  The console is not modelled.
\<close>

definition forEachCallback ::
  "engine \<Rightarrow> bool \<Rightarrow> category \<Rightarrow> element \<Rightarrow> ReviewItem list \<Rightarrow> jserror + ReviewItem list" where
  "forEachCallback E q cat item data =
     (case extractItem E q cat item data of Inl e \<Rightarrow> Inr data | Inr data' \<Rightarrow> Inr data')"

text \<open>\<^verbatim>\<open>forEach\<close> stops at the first error that its callback lets through.\<close>

fun forEach :: "('a \<Rightarrow> 's \<Rightarrow> jserror + 's) \<Rightarrow> 'a list \<Rightarrow> 's \<Rightarrow> jserror + 's" where
  "forEach f [] s = Inr s"
| "forEach f (x # xs) s = (case f x s of Inl e \<Rightarrow> Inl e | Inr s' \<Rightarrow> forEach f xs s')"

text \<open>
  The document is the one that the parser made of \<^verbatim>\<open>html\<close>.  The two calls on the
  document, \<^verbatim>\<open>doc.querySelector('title')\<close> and \<^verbatim>\<open>doc.querySelectorAll(...)\<close>, are outside
  of the \<^verbatim>\<open>try\<close> block: each throws when the document answers the name of the method
  with an element.  The check of the document's title does no more than write a warning
  to the console.
\<close>

definition parseDoubanPage :: "engine \<Rightarrow> document \<Rightarrow> category \<Rightarrow> jserror + ReviewItem list" where
  "parseDoubanPage E doc cat =
     (if List.member (named doc) (asc ''querySelector'')
      then Inl (not_a_function ''doc.querySelector'')
      else if List.member (named doc) (asc ''querySelectorAll'')
      then Inl (not_a_function ''doc.querySelectorAll'')
      else forEach (forEachCallback E (quirks doc) cat)
             (querySelectorAll [[Class (asc ''item'')], [Class (asc ''subject-item'')]] doc) [])"

section \<open>fetchViaLocalServer\<close>

text \<open>
  \<^verbatim>\<open>encodeURIComponent\<close>: a code unit of the unreserved set stands for itself; any other
  code point is written as the bytes of its UTF-8 form, each as \<^verbatim>\<open>%XX\<close>; a surrogate
  without its partner throws a \<^verbatim>\<open>URIError\<close>.
\<close>

definition unreserved :: "nat \<Rightarrow> bool" where
  "unreserved c \<longleftrightarrow>
     (65 \<le> c \<and> c \<le> 90) \<or> (97 \<le> c \<and> c \<le> 122) \<or> (48 \<le> c \<and> c \<le> 57) \<or>
     List.member [45, 95, 46, 33, 126, 42, 39, 40, 41] c"

definition hex_digit :: "nat \<Rightarrow> nat" where
  "hex_digit n = (if n < 10 then 48 + n else 55 + n)"

definition percent :: "nat \<Rightarrow> jstring" where
  "percent b = [37, hex_digit (b div 16), hex_digit (b mod 16)]"

definition utf8 :: "nat \<Rightarrow> nat list" where
  "utf8 cp =
     (if cp < 0x80 then [cp]
      else if cp < 0x800 then [0xC0 + cp div 64, 0x80 + cp mod 64]
      else if cp < 0x10000 then [0xE0 + cp div 4096, 0x80 + (cp div 64) mod 64, 0x80 + cp mod 64]
      else [0xF0 + cp div 262144, 0x80 + (cp div 4096) mod 64, 0x80 + (cp div 64) mod 64,
            0x80 + cp mod 64])"

definition is_lead :: "nat \<Rightarrow> bool" where
  "is_lead c \<longleftrightarrow> 0xD800 \<le> c \<and> c \<le> 0xDBFF"

definition is_trail :: "nat \<Rightarrow> bool" where
  "is_trail c \<longleftrightarrow> 0xDC00 \<le> c \<and> c \<le> 0xDFFF"

definition uri_malformed :: jserror where
  "uri_malformed = URIError (asc ''URI malformed'')"

definition prepend :: "jstring \<Rightarrow> jserror + jstring \<Rightarrow> jserror + jstring" where
  "prepend r x = (case x of Inl e \<Rightarrow> Inl e | Inr t \<Rightarrow> Inr (r @ t))"

fun encodeURIComponent :: "jstring \<Rightarrow> jserror + jstring" where
  "encodeURIComponent [] = Inr []"
| "encodeURIComponent (c # cs) =
     (if unreserved c then prepend [c] (encodeURIComponent cs)
      else if is_trail c then Inl uri_malformed
      else if is_lead c then
        (case cs of
           [] \<Rightarrow> Inl uri_malformed
         | d # ds \<Rightarrow>
             if is_trail d
             then prepend (concat (map percent (utf8 ((c - 0xD800) * 0x400 + (d - 0xDC00) + 0x10000))))
                    (encodeURIComponent ds)
             else Inl uri_malformed)
      else prepend (concat (map percent (utf8 c))) (encodeURIComponent cs))"

text \<open>
  What one call of the browser's \<^verbatim>\<open>fetch\<close> does: the promise is rejected with an error,
  or it resolves to a response, of which the program reads the status and the body
  (\<^verbatim>\<open>response.text()\<close>, which may be rejected too).
\<close>

datatype fetch_result = Rejected jserror | Response nat "jserror + jstring"

definition response_ok :: "nat \<Rightarrow> bool" where
  "response_ok status \<longleftrightarrow> 200 \<le> status \<and> status \<le> 299"

definition msg_403 :: jstring where
  "msg_403 = asc ''403 Forbidden: IP'' @ [0x88AB, 0x8C46, 0x74E3, 0x9650, 0x5236, 0x6216] @
     asc ''Cookie'' @ [0x65E0, 0x6548]"

definition msg_418 :: jstring where
  "msg_418 = asc ''418 I'' @ [39] @ asc ''m a teapot: '' @
     [0x8C46, 0x74E3, 0x8BA4, 0x4E3A, 0x4F60, 0x662F, 0x673A, 0x5668, 0x4EBA, 0xFF0C] @
     asc ''IP'' @ [0x6682, 0x65F6, 0x88AB, 0x5C01]"

definition msg_status :: "nat \<Rightarrow> jstring \<Rightarrow> jstring" where
  "msg_status status errText =
     [0x8BF7, 0x6C42, 0x5931, 0x8D25] @ asc '' (Status '' @ digits status @ asc ''): '' @ errText"

text \<open>The message that asks for the local proxy: it ends with \<^verbatim>\<open>'node proxy.js'\<close>.\<close>

definition msg_no_proxy :: jstring where
  "msg_no_proxy = [0x274C] @ asc '' '' @
     [0x65E0, 0x6CD5, 0x8FDE, 0x63A5, 0x672C, 0x5730, 0x4EE3, 0x7406, 0xFF01, 0x8BF7, 0x786E,
      0x4FDD, 0x5728, 0x7EC8, 0x7AEF, 0x8FD0, 0x884C, 0x4E86] @
     asc '' '' @ [39] @ asc ''node proxy.js'' @ [39]"

text \<open>The body of the \<^verbatim>\<open>try\<close> block of \<^verbatim>\<open>fetchViaLocalServer\<close>.\<close>

definition fetch_try :: "(jstring \<Rightarrow> fetch_result) \<Rightarrow> jstring \<Rightarrow> jserror + jstring" where
  "fetch_try fetch url =
     (case fetch url of
        Rejected e \<Rightarrow> Inl e
      | Response status text \<Rightarrow>
          if \<not> response_ok status then
            (let errText = (case text of Inl e \<Rightarrow> [] | Inr t \<Rightarrow> t)
             in if status = 403 then Inl (Error msg_403)
                else if status = 418 then Inl (Error msg_418)
                else Inl (Error (msg_status status errText)))
          else text)"

definition fetchViaLocalServer ::
  "(jstring \<Rightarrow> fetch_result) \<Rightarrow> jstring \<Rightarrow> jstring \<Rightarrow> jserror + jstring" where
  "fetchViaLocalServer fetch targetUrl cookie =
     (case encodeURIComponent cookie of
        Inl e \<Rightarrow> Inl e
      | Inr encodedCookie \<Rightarrow>
          (case encodeURIComponent targetUrl of
             Inl e \<Rightarrow> Inl e
           | Inr encodedUrl \<Rightarrow>
               (case fetch_try fetch
                       (asc ''/fetch?url='' @ encodedUrl @ asc ''&cookie='' @ encodedCookie) of
                  Inr html \<Rightarrow> Inr html
                | Inl e \<Rightarrow>
                    if str_includes (message e) (asc ''Failed to fetch'') \<or>
                       str_includes (message e) (asc ''Connection refused'')
                    then Inl (Error msg_no_proxy)
                    else Inl e)))"

section \<open>crawlUserReviews\<close>

text \<open>
  The state of one call: the array \<^verbatim>\<open>allReviews\<close>, the offset \<^verbatim>\<open>start\<close> of the category
  being crawled, and what the call has done to the outside: the messages given to
  \<^verbatim>\<open>onLog\<close>, the target URL of every call of \<^verbatim>\<open>fetchViaLocalServer\<close>, and the
  milliseconds of every \<^verbatim>\<open>sleep\<close>.  \<^verbatim>\<open>onLog\<close> is taken not to throw.
\<close>

record crawl_state =
  allReviews :: "ReviewItem list"
  start :: nat
  logged :: "jstring list"
  requested :: "jstring list"
  slept :: "nat list"

definition onLog :: "jstring \<Rightarrow> crawl_state \<Rightarrow> crawl_state" where
  "onLog msg st = st\<lparr>logged := logged st @ [msg]\<rparr>"

definition categories :: "category list" where
  "categories = [Movie]"

definition maxPages :: nat where
  "maxPages = 4"

fun cat_name :: "category \<Rightarrow> jstring" where
  "cat_name Movie = asc ''movie''"
| "cat_name Book = asc ''book''"
| "cat_name Music = asc ''music''"

fun cat_upper :: "category \<Rightarrow> jstring" where
  "cat_upper Movie = asc ''MOVIE''"
| "cat_upper Book = asc ''BOOK''"
| "cat_upper Music = asc ''MUSIC''"

definition subdomain :: "category \<Rightarrow> jstring" where
  "subdomain cat = (if cat = Movie then asc ''movie'' else if cat = Book then asc ''book''
                    else asc ''music'')"

definition pageUrl :: "category \<Rightarrow> jstring \<Rightarrow> nat \<Rightarrow> jstring" where
  "pageUrl cat uid st =
     asc ''https://'' @ subdomain cat @ asc ''.douban.com/people/'' @ uid @
     asc ''/collect?start='' @ digits st @ asc ''&sort=time&rating=all&filter=all&mode=grid''"

definition msg_mode :: jstring where
  "msg_mode = [0xD83D, 0xDD0C] @ asc '' '' @ [0x6A21, 0x5F0F] @ asc '': '' @
     [0x672C, 0x5730, 0x76F4, 0x8FDE] @ asc '' (My IP)''"

definition msg_ensure :: jstring where
  "msg_ensure = [0xD83D, 0xDCE1] @ asc '' '' @ [0x786E, 0x4FDD, 0x540E, 0x53F0, 0x5DF2, 0x8FD0, 0x884C] @
     asc '' '' @ [39] @ asc ''node proxy.js'' @ [39]"

definition msg_guest :: jstring where
  "msg_guest = [0x26A0, 0xFE0F] @ asc '' '' @ [0x672A, 0x68C0, 0x6D4B, 0x5230] @ asc '' Cookie'' @
     [0xFF0C, 0x5C06, 0x4EE5, 0x6E38, 0x5BA2, 0x8EAB, 0x4EFD, 0x8BBF, 0x95EE] @ asc '' ('' @
     [0x53EA, 0x80FD, 0x6293, 0x53D6, 0x516C, 0x5F00, 0x53EF, 0x89C1, 0x5185, 0x5BB9, 0xFF0C,
      0x9891, 0x7387, 0x53D7, 0x9650] @ asc '')''"

definition msg_cookie :: jstring where
  "msg_cookie = [0xD83C, 0xDF6A] @ asc '' '' @ [0x5DF2, 0x52A0, 0x8F7D] @ asc '' Cookie'' @
     [0xFF0C, 0x5C06, 0x4EE5, 0x767B, 0x5F55, 0x8EAB, 0x4EFD, 0x8BBF, 0x95EE]"

definition msg_request :: "category \<Rightarrow> nat \<Rightarrow> jstring" where
  "msg_request cat page = [0x26A1] @ asc '' ['' @ cat_upper cat @ asc ''] P'' @ digits page @
     asc '' '' @ [0x8BF7, 0x6C42, 0x4E2D] @ asc ''...''"

definition marker_abnormal :: jstring where
  "marker_abnormal = [0x68C0, 0x6D4B, 0x5230, 0x6709, 0x5F02, 0x5E38, 0x8BF7, 0x6C42]"

definition marker_login :: jstring where
  "marker_login = [0x767B, 0x5F55, 0x8C46, 0x74E3]"

definition msg_blocked :: jstring where
  "msg_blocked = [0x8C46, 0x74E3, 0x53CD, 0x722C, 0x62E6, 0x622A] @ asc '' (IP '' @
     [0x9891, 0x7387, 0x8FC7, 0x9AD8] @ asc '')''"

definition msg_no_data :: "category \<Rightarrow> jstring" where
  "msg_no_data cat = [0x2139, 0xFE0F] @ asc '' '' @ cat_name cat @ asc '' '' @
     [0x6682, 0x65E0, 0x6570, 0x636E, 0x6216, 0x6570, 0x636E, 0x79C1, 0x5BC6]"

definition msg_captured :: "nat \<Rightarrow> jstring" where
  "msg_captured n = [0x2705] @ asc '' '' @ [0x6355, 0x83B7] @ asc '' '' @ digits n @ asc '' '' @
     [0x6761, 0x6570, 0x636E]"

definition msg_stopped :: "category \<Rightarrow> jstring \<Rightarrow> jstring" where
  "msg_stopped cat m = [0x26D4] @ asc '' '' @ cat_name cat @ asc '' '' @ [0x505C, 0x6B62] @
     asc '': '' @ m"

text \<open>The message of the error thrown when nothing was collected.\<close>

definition msg_empty :: jstring where
  "msg_empty = [0x6570, 0x636E, 0x4E3A, 0x7A7A, 0x3002, 0x53EF, 0x80FD, 0x662F] @ asc '' IP '' @
     [0x88AB, 0x5C01, 0x3001] @ asc ''UID '' @
     [0x9519, 0x8BEF, 0x6216, 0x7528, 0x6237, 0x5F00, 0x542F, 0x4E86, 0x9690, 0x79C1, 0x4FDD,
      0x62A4, 0x3002]"

text \<open>
  The outside world of a call, besides the engine: \<open>F k\<close> is what the browser's \<^verbatim>\<open>fetch\<close> does in the
  call of \<^verbatim>\<open>fetchViaLocalServer\<close> that \<open>k\<close> calls precede, and \<open>P\<close> is the HTML parser.
\<close>

type_synonym network = "nat \<Rightarrow> jstring \<Rightarrow> fetch_result"
type_synonym html_parser = "jstring \<Rightarrow> document"

datatype flow = Continue | Break

text \<open>
  The three statements of the \<^verbatim>\<open>try\<close> block that get the items of a page: the call of
  \<^verbatim>\<open>fetchViaLocalServer\<close>, the check of the two block-page markers, and
  \<^verbatim>\<open>parseDoubanPage\<close>.
\<close>

definition pageItems ::
  "engine \<Rightarrow> (jstring \<Rightarrow> fetch_result) \<Rightarrow> html_parser \<Rightarrow> jstring \<Rightarrow> jstring \<Rightarrow> category
     \<Rightarrow> jserror + ReviewItem list" where
  "pageItems E fetch P url userCookie cat =
     (case fetchViaLocalServer fetch url userCookie of
        Inl e \<Rightarrow> Inl e
      | Inr html \<Rightarrow>
          if str_includes html marker_abnormal \<or> str_includes html marker_login
          then Inl (Error msg_blocked)
          else parseDoubanPage E (P html) cat)"

text \<open>
  The \<^verbatim>\<open>try\<close> block of one page: how the loop goes on, or the error thrown; either
  way with the state as the block left it.
\<close>

definition pageTry ::
  "engine \<Rightarrow> network \<Rightarrow> html_parser \<Rightarrow> jstring \<Rightarrow> jstring \<Rightarrow> category \<Rightarrow> nat \<Rightarrow> crawl_state
     \<Rightarrow> (jserror \<times> crawl_state) + (flow \<times> crawl_state)" where
  "pageTry E F P uid userCookie cat page st =
     (let url = pageUrl cat uid (start st);
          st1 = onLog (msg_request cat page) st;
          delay = (if userCookie \<noteq> [] then 1500 else 3000);
          st2 = (if page > 1 then st1\<lparr>slept := slept st1 @ [delay]\<rparr> else st1);
          st3 = st2\<lparr>requested := requested st2 @ [url]\<rparr>
      in case pageItems E (F (length (requested st2))) P url userCookie cat of
           Inl e \<Rightarrow> Inl (e, st3)
         | Inr items \<Rightarrow>
             if length items = 0
             then Inr (Break, if page = 1 then onLog (msg_no_data cat) st3 else st3)
             else (let st4 = onLog (msg_captured (length items)) st3
                   in case push_spread E ReviewsPush (allReviews st4) items of
                        Inl e \<Rightarrow> Inl (e, st4)
                      | Inr collected \<Rightarrow>
                          Inr (Continue, st4\<lparr>allReviews := collected,
                                             start := start st4 + 15\<rparr>)))"

text \<open>One turn of the page loop: the \<^verbatim>\<open>catch\<close> clause logs the message and breaks.\<close>

definition pageStep ::
  "engine \<Rightarrow> network \<Rightarrow> html_parser \<Rightarrow> jstring \<Rightarrow> jstring \<Rightarrow> category \<Rightarrow> nat \<Rightarrow> crawl_state
     \<Rightarrow> flow \<times> crawl_state" where
  "pageStep E F P uid userCookie cat page st =
     (case pageTry E F P uid userCookie cat page st of
        Inl (err, st') \<Rightarrow> (Break, onLog (msg_stopped cat (message err)) st')
      | Inr r \<Rightarrow> r)"

function pageLoop ::
  "engine \<Rightarrow> network \<Rightarrow> html_parser \<Rightarrow> jstring \<Rightarrow> jstring \<Rightarrow> category \<Rightarrow> nat \<Rightarrow> crawl_state
     \<Rightarrow> crawl_state" where
  "pageLoop E F P uid userCookie cat page st =
     (if page \<le> maxPages then
        (case pageStep E F P uid userCookie cat page st of
           (Break, st') \<Rightarrow> st'
         | (Continue, st') \<Rightarrow> pageLoop E F P uid userCookie cat (page + 1) st')
      else st)"
  by pat_completeness auto
termination
  by (relation "measure (\<lambda>(E, F, P, uid, userCookie, cat, page, st). maxPages + 1 - page)") auto

declare pageLoop.simps [simp del]

fun categoryLoop ::
  "engine \<Rightarrow> network \<Rightarrow> html_parser \<Rightarrow> jstring \<Rightarrow> jstring \<Rightarrow> category list \<Rightarrow> crawl_state
     \<Rightarrow> crawl_state" where
  "categoryLoop E F P uid userCookie [] st = st"
| "categoryLoop E F P uid userCookie (cat # cats) st =
     categoryLoop E F P uid userCookie cats
       (pageLoop E F P uid userCookie cat 1 (st\<lparr>start := 0\<rparr>))"

definition initial :: "jstring \<Rightarrow> crawl_state" where
  "initial userCookie =
     onLog (if userCookie = [] then msg_guest else msg_cookie)
       (onLog msg_ensure
          (onLog msg_mode
             \<lparr>allReviews = [], start = 0, logged = [], requested = [], slept = []\<rparr>))"

text \<open>
  The result of the call, \<open>Inl\<close> the error that rejects the promise, together with the
  final state.
\<close>

definition crawlUserReviews ::
  "engine \<Rightarrow> network \<Rightarrow> html_parser \<Rightarrow> jstring \<Rightarrow> jstring
     \<Rightarrow> (jserror + ReviewItem list) \<times> crawl_state" where
  "crawlUserReviews E F P uid userCookie =
     (let st = categoryLoop E F P uid userCookie categories (initial userCookie)
      in if length (allReviews st) = 0 then (Inl (Error msg_empty), st)
         else (Inr (allReviews st), st))"

section \<open>Notions used in the statements\<close>

text \<open>The item blocks of a page, in tree order.\<close>

definition itemBlocks :: "document \<Rightarrow> element list" where
  "itemBlocks doc = querySelectorAll [[Class (asc ''item'')], [Class (asc ''subject-item'')]] doc"

text \<open>What one item block adds to the result: one record, or none.\<close>

definition recordsOf :: "engine \<Rightarrow> bool \<Rightarrow> category \<Rightarrow> element \<Rightarrow> ReviewItem list" where
  "recordsOf E q cat item = (case extractItem E q cat item [] of Inl e \<Rightarrow> [] | Inr rs \<Rightarrow> rs)"

text \<open>The document answers the name of one of the two methods called on it with an element.\<close>

definition shadows_queries :: "document \<Rightarrow> bool" where
  "shadows_queries doc \<longleftrightarrow>
     List.member (named doc) (asc ''querySelector'') \<or>
     List.member (named doc) (asc ''querySelectorAll'')"

subsection \<open>A sample engine\<close>

text \<open>A bound of the order of that of V8, at both places.\<close>

definition sample_engine :: engine where
  "sample_engine site = 120000"

subsection \<open>Sample pages\<close>

text \<open>
  \<open>page_of ks\<close> is the document of a page without a doctype (hence in quirks mode) whose
  body holds the nodes \<open>ks\<close>.
\<close>

definition div_class :: "string \<Rightarrow> node list \<Rightarrow> node" where
  "div_class c ks = Element HTMLElement (asc ''div'') (Some (asc c)) ks"

definition span_class :: "string \<Rightarrow> node list \<Rightarrow> node" where
  "span_class c ks = Element HTMLElement (asc ''span'') (Some (asc c)) ks"

definition anchor :: "string \<Rightarrow> node" where
  "anchor t = Element HTMLElement (asc ''a'') None [Text (asc t)]"

definition page_of :: "node list \<Rightarrow> document" where
  "page_of ks = \<lparr>quirks = True, named = [], childNodes =
     [Element HTMLElement (asc ''html'') None
        [Element HTMLElement (asc ''head'') None [], Element HTMLElement (asc ''body'') None ks]]\<rparr>"

definition item_titled :: "string \<Rightarrow> node list \<Rightarrow> node" where
  "item_titled t ks = div_class ''item'' (div_class ''title'' [anchor t] # ks)"

definition svg_rating :: node where
  "svg_rating = Element SVGElement (asc ''svg'') (Some (asc ''rating5-t'')) []"

definition simple_record :: "string \<Rightarrow> int \<Rightarrow> ReviewItem" where
  "simple_record t n = \<lparr>title = asc t, rating = n, comment = [], date = [], category = Movie,
                         tags = []\<rparr>"

text \<open>
  \<^verbatim>\<open><div class="item"><div class="title"><a>T</a></div><svg class="rating5-t"></svg></div>\<close>
\<close>

definition doc_svg :: document where
  "doc_svg = page_of [item_titled ''T'' [svg_rating]]"

text \<open>Three items: the second has an SVG element as its rating element.\<close>

definition doc_three :: document where
  "doc_three = page_of [item_titled ''A'' [], item_titled ''B'' [svg_rating],
                        item_titled ''C'' [span_class ''rating4-t'' []]]"

subsection \<open>Fallback chains\<close>








subsection \<open>Ratings\<close>

text \<open>
  An occurrence of \<^verbatim>\<open>rating<digit>-t\<close> in a string, at position \<open>k\<close> and with digit \<open>d\<close>.
\<close>

definition occurs_at :: "jstring \<Rightarrow> nat \<Rightarrow> nat \<Rightarrow> bool" where
  "occurs_at v k d \<longleftrightarrow> is_digit d \<and> prefix (asc ''rating'' @ [d] @ asc ''-t'') (drop k v)"

definition class_begins_rating :: "node \<Rightarrow> bool" where
  "class_begins_rating e =
     (case classAttr e of None \<Rightarrow> False | Some v \<Rightarrow> prefix (asc ''rating'') v)"

text \<open>
  The rating as the specification words it: the digit of a class token of the pattern
  \<^verbatim>\<open>rating<digit>-\<close>, wherever the token stands in its class list; \<open>0\<close> when no class
  token of the item block has the pattern.
\<close>

definition token_rating :: "jstring \<Rightarrow> nat option" where
  "token_rating t =
     (if prefix (asc ''rating'') t then
        (case drop 6 t of
           d # m # rest \<Rightarrow> if is_digit d \<and> m = 45 then Some d else None
         | _ \<Rightarrow> None)
      else None)"

definition spec_rating :: "element \<Rightarrow> int" where
  "spec_rating item =
     (case List.find (\<lambda>t. token_rating t \<noteq> None)
             (concat (map (\<lambda>x. class_tokens (snd x)) (descendants item))) of
        None \<Rightarrow> 0
      | Some t \<Rightarrow> (case token_rating t of Some d \<Rightarrow> parseInt d | None \<Rightarrow> 0))"

text \<open>
  \<^verbatim>\<open><div class="item"><div class="title"><a>T</a></div><span class="x rating5-t"></span></div>\<close>
\<close>

definition doc_token :: document where
  "doc_token = page_of [item_titled ''T'' [span_class ''x rating5-t'' []]]"

text \<open>
  \<^verbatim>\<open><div class="item"><div class="title"><a>T</a></div><span class="rating9-t"></span></div>\<close>
\<close>

definition doc_nine :: document where
  "doc_nine = page_of [item_titled ''T'' [span_class ''rating9-t'' []]]"

subsection \<open>The page loop\<close>

text \<open>
  The state after the first statements of the \<^verbatim>\<open>try\<close> block of a page: the request is
  logged, the pause is made (not before the first page), and the page is requested.
\<close>

definition after_request :: "category \<Rightarrow> jstring \<Rightarrow> jstring \<Rightarrow> nat \<Rightarrow> crawl_state \<Rightarrow> crawl_state" where
  "after_request cat uid userCookie page st =
     st\<lparr>logged := logged st @ [msg_request cat page],
        slept := slept st @ (if page > 1 then [if userCookie \<noteq> [] then 1500 else 3000] else []),
        requested := requested st @ [pageUrl cat uid (start st)]\<rparr>"

text \<open>
  What holds of every state of a crawl over the categories \<open>cats\<close>: the records collected
  have one of these categories and a rating from 0 to 9, and the pages requested are on
  the subdomain of one of them.
\<close>

definition crawl_inv :: "category list \<Rightarrow> crawl_state \<Rightarrow> bool" where
  "crawl_inv cats st \<longleftrightarrow>
     (\<forall>r \<in> set (allReviews st). category r \<in> set cats \<and> 0 \<le> rating r \<and> rating r \<le> 9) \<and>
     (\<forall>u \<in> set (requested st).
        \<exists>c \<in> set cats. prefix (asc ''https://'' @ subdomain c @ asc ''.douban.com/'') u)"

subsection \<open>Sample networks and pages\<close>

text \<open>The page of \<open>doc_nine\<close> and a page without item blocks, as the server sends them.\<close>

definition html_nine :: jstring where
  "html_nine =
     asc ''<div class=item><div class=title><a>T</a></div><span class=rating9-t></span></div>''"

definition html_plain :: jstring where
  "html_plain = asc ''<p>nothing here</p>''"

definition doc_plain :: document where
  "doc_plain = page_of [Element HTMLElement (asc ''p'') None [Text (asc ''nothing here'')]]"

text \<open>A parser that knows these two pages.\<close>

definition sample_parser :: html_parser where
  "sample_parser html =
     (if html = html_nine then doc_nine else if html = html_plain then doc_plain
      else page_of [])"

text \<open>No proxy is listening: every \<^verbatim>\<open>fetch\<close> is rejected as the browser does.\<close>

definition net_refused :: network where
  "net_refused k url = Rejected (TypeError (asc ''Failed to fetch''))"

text \<open>The first \<open>n\<close> calls get the page \<open>html\<close>, the later ones the proxy's 403.\<close>

definition net_pages :: "nat \<Rightarrow> jstring \<Rightarrow> network" where
  "net_pages n html k url =
     (if k < n then Response 200 (Inr html) else Response 403 (Inr (asc ''Douban Redirected'')))"

text \<open>A message names the local proxy when it contains \<^verbatim>\<open>proxy\<close> or the word for it.\<close>

definition mentions_proxy :: "jstring \<Rightarrow> bool" where
  "mentions_proxy m \<longleftrightarrow> str_includes m (asc ''proxy'') \<or> str_includes m [0x4EE3, 0x7406]"

subsection \<open>A document that shadows a method\<close>

text \<open>
  \<^verbatim>\<open><img name=querySelector>\<close>: the document answers \<^verbatim>\<open>doc.querySelector\<close> with the
  image.
\<close>

definition doc_shadow :: document where
  "doc_shadow = \<lparr>quirks = True, named = [asc ''querySelector''], childNodes =
     [Element HTMLElement (asc ''html'') None
        [Element HTMLElement (asc ''head'') None [],
         Element HTMLElement (asc ''body'') None
           [Element HTMLElement (asc ''img'') None []]]]\<rparr>"

subsection \<open>A very long page\<close>

text \<open>A page of 126000 item blocks, each with the title \<^verbatim>\<open>T\<close>, and a server that sends it.\<close>

definition html_item :: jstring where
  "html_item = asc ''<div class=item><div class=title><a>T</a></div></div>''"

definition html_big :: jstring where
  "html_big = concat (replicate 126000 html_item)"

definition doc_big :: document where
  "doc_big = page_of (replicate 126000 (item_titled ''T'' []))"

definition big_parser :: html_parser where
  "big_parser html = (if html = html_big then doc_big else page_of [])"

definition net_big :: network where
  "net_big k url = Response 200 (Inr html_big)"

section \<open>The extraction\<close>

subsection \<open>The result as a function of the item blocks\<close>

lemma andThen_Inl [simp]: "andThen (Inl e) f = Inl e"
  by (simp add: andThen_def)

lemma andThen_Inr [simp]: "andThen (Inr x) f = f x"
  by (simp add: andThen_def)

lemma andThen_eq_Inr: "andThen m f = Inr y \<longleftrightarrow> (\<exists>x. m = Inr x \<and> f x = Inr y)"
  by (cases m) simp_all

lemma extractItem_data:
  "extractItem E q cat item data =
     (case extractItem E q cat item [] of Inl e \<Rightarrow> Inl e | Inr rs \<Rightarrow> Inr (data @ rs))"
  by (simp add: extractItem_def andThen_def split: sum.splits)

lemma callback_eq: "forEachCallback E q cat item data = Inr (data @ recordsOf E q cat item)"
  unfolding forEachCallback_def recordsOf_def
  by (subst extractItem_data) (simp split: sum.splits)

lemma forEach_eq:
  "forEach (forEachCallback E q cat) items data = Inr (data @ concat (map (recordsOf E q cat) items))"
  by (induction items arbitrary: data) (simp_all add: callback_eq)

lemma parseDoubanPage_eq:
  "\<not> shadows_queries doc \<Longrightarrow>
     parseDoubanPage E doc cat =
       Inr (concat (map (recordsOf E (quirks doc) cat) (itemBlocks doc)))"
  by (simp add: parseDoubanPage_def shadows_queries_def forEach_eq itemBlocks_def)

lemma parseDoubanPage_Inr:
  "parseDoubanPage E doc cat = Inr rs \<Longrightarrow>
     rs = concat (map (recordsOf E (quirks doc) cat) (itemBlocks doc))"
proof (cases "shadows_queries doc")
  case True
  then have "\<exists>e. parseDoubanPage E doc cat = Inl e"
    by (auto simp: parseDoubanPage_def shadows_queries_def)
  then show "parseDoubanPage E doc cat = Inr rs \<Longrightarrow> ?thesis" by auto
next
  case False
  then show "parseDoubanPage E doc cat = Inr rs \<Longrightarrow> ?thesis"
    by (simp add: parseDoubanPage_eq)
qed

lemma rating_here_digit: "rating_here s = Some d \<Longrightarrow> is_digit d"
  by (auto simp: rating_here_def split: if_splits list.splits)

lemma match_rating_digit: "match_rating s = Some d \<Longrightarrow> is_digit d"
  by (induction s) (auto split: option.splits dest: rating_here_digit)

lemma parseInt_range: "is_digit d \<Longrightarrow> 0 \<le> parseInt d \<and> parseInt d \<le> 9"
  by (auto simp: is_digit_def parseInt_def)

lemma resolveRating_Inr:
  "resolveRating q item = Inr n \<Longrightarrow>
     (case querySelector q [[ClassBegins (asc ''rating'')]] item of
        None \<Rightarrow> n = 0
      | Some x \<Rightarrow> n = (case match_rating (className (snd x)) of None \<Rightarrow> 0 | Some d \<Rightarrow> parseInt d))"
  by (auto simp: resolveRating_def item_querySelector_def className_match_def
      split: option.splits if_splits sum.splits)

lemma resolveRating_range: "resolveRating q item = Inr n \<Longrightarrow> 0 \<le> n \<and> n \<le> 9"
  by (drule resolveRating_Inr)
     (auto split: option.splits dest!: match_rating_digit parseInt_range)

lemma recordsOf_cases:
  "recordsOf E q cat item = [] \<or>
   (\<exists>t n c d ts. resolveTitle q item = Inr t \<and> t \<noteq> [] \<and> resolveRating q item = Inr n \<and>
      resolveComment q item = Inr c \<and> resolveDate q item = Inr d \<and>
      resolveTags E q item = Inr ts \<and>
      recordsOf E q cat item =
        [\<lparr>title = t, rating = n, comment = c, date = d, category = cat, tags = ts\<rparr>])"
  by (auto simp: recordsOf_def extractItem_def andThen_def split: sum.splits)

lemma recordsOf_length:
  "length (recordsOf E q cat item) =
     (if (\<exists>t. resolveTitle q item = Inr t \<and> t \<noteq> []) \<and>
         (\<exists>rs. extractItem E q cat item [] = Inr rs) then 1 else 0)"
  by (auto simp: recordsOf_def extractItem_def andThen_def split: sum.splits)

lemma recordsOf_title:
  "r \<in> set (recordsOf E q cat item) \<Longrightarrow> resolveTitle q item = Inr (title r)"
  using recordsOf_cases [of E q cat item] by auto


subsection \<open>Records and titles\<close>

text \<open>
  C5, as amended.  When the two calls on the document succeed, the result of
  \<^verbatim>\<open>parseDoubanPage\<close> is made of what each item block adds, in the order of the blocks.  A
  block adds exactly one record when a non-empty title was resolved for it and no
  statement of its \<^verbatim>\<open>try\<close> block threw; otherwise it adds nothing: a block whose
  extraction throws is dropped by the \<^verbatim>\<open>catch\<close> clause, as a block without a title is
  dropped, and neither makes the function fail.  The record has the resolved title.
\<close>

theorem record_iff_title_and_no_failure:
  "(\<not> shadows_queries doc \<longrightarrow>
      parseDoubanPage E doc cat =
        Inr (concat (map (recordsOf E (quirks doc) cat) (itemBlocks doc)))) \<and>
   (length (recordsOf E q cat item) = 1 \<longleftrightarrow>
      (\<exists>t. resolveTitle q item = Inr t \<and> t \<noteq> []) \<and>
      (\<exists>rs. extractItem E q cat item [] = Inr rs)) \<and>
   (length (recordsOf E q cat item) \<noteq> 1 \<longrightarrow> recordsOf E q cat item = []) \<and>
   (\<forall>r \<in> set (recordsOf E q cat item). resolveTitle q item = Inr (title r))"
proof -
  have one: "length (recordsOf E q cat item) = 1 \<longleftrightarrow>
      (\<exists>t. resolveTitle q item = Inr t \<and> t \<noteq> []) \<and>
      (\<exists>rs. extractItem E q cat item [] = Inr rs)"
    by (simp add: recordsOf_length)
  have none: "length (recordsOf E q cat item) \<noteq> 1 \<longrightarrow> recordsOf E q cat item = []"
    using recordsOf_cases [of E q cat item] by auto
  have titles: "\<forall>r \<in> set (recordsOf E q cat item). resolveTitle q item = Inr (title r)"
    using recordsOf_title by blast
  show ?thesis
    using one none titles parseDoubanPage_eq [of doc E cat] by blast
qed

text \<open>
  The claim as stated fails on \<open>doc_svg\<close>: the title \<^verbatim>\<open>T\<close> is resolved for its only item
  block, and the result has no record.
\<close>

theorem record_iff_title_counterexample:
  "length (itemBlocks doc_svg) = 1 \<and>
   resolveTitle (quirks doc_svg) (hd (itemBlocks doc_svg)) = Inr (asc ''T'') \<and>
   parseDoubanPage sample_engine doc_svg Movie = Inr []"
  by code_simp

text \<open>On \<open>doc_three\<close> the first and the third block add a record.\<close>

theorem record_iff_title_witness:
  "\<not> shadows_queries doc_three \<and>
   parseDoubanPage sample_engine doc_three Movie =
     Inr [simple_record ''A'' 0, simple_record ''C'' 4] \<and>
   length (recordsOf sample_engine True Movie (itemBlocks doc_three ! 2)) = 1 \<and>
   resolveTitle True (itemBlocks doc_three ! 2) = Inr (asc ''C'')"
proof -
  have ok: "\<not> shadows_queries doc_three"
    by code_simp
  have third: "recordsOf sample_engine True Movie (itemBlocks doc_three ! 2) = [simple_record ''C'' 4]"
    by code_simp
  have title: "title (simple_record ''C'' 4) = asc ''C''"
    by (simp add: simple_record_def)
  have all: "concat (map (recordsOf sample_engine (quirks doc_three) Movie) (itemBlocks doc_three)) =
      [simple_record ''A'' 0, simple_record ''C'' 4]"
    by code_simp
  show ?thesis
    using ok third title all
      record_iff_title_and_no_failure [of doc_three sample_engine Movie True
        "itemBlocks doc_three ! 2"]
    by simp
qed

subsection \<open>An error that leaves the extraction\<close>

text \<open>
  A skipped block: when the two calls on the document succeed, an item block whose
  extraction throws does not stop the loop, and the result is what the blocks before it
  and the blocks after it add.
\<close>

lemma throwing_item_is_skipped:
  assumes "\<not> shadows_queries doc" and "itemBlocks doc = pre @ bad # post"
    and "extractItem E (quirks doc) cat bad [] = Inl e"
  shows "parseDoubanPage E doc cat =
           Inr (concat (map (recordsOf E (quirks doc) cat) pre) @
                concat (map (recordsOf E (quirks doc) cat) post))"
proof -
  have "recordsOf E (quirks doc) cat bad = []"
    using assms(3) by (simp add: recordsOf_def)
  with assms(1,2) show ?thesis
    by (simp add: parseDoubanPage_eq)
qed

text \<open>
  C9.  On the document of \<^verbatim>\<open><img name=querySelector>\<close>, whatever the engine and the
  category, \<^verbatim>\<open>parseDoubanPage\<close> throws: the call \<^verbatim>\<open>doc.querySelector('title')\<close>, which is
  not in a \<^verbatim>\<open>try\<close> block, finds the image where the method was.
\<close>

theorem parseDoubanPage_throws_on_shadowed_method:
  "parseDoubanPage E doc_shadow cat = Inl (not_a_function ''doc.querySelector'')"
  by (simp add: parseDoubanPage_def doc_shadow_def)

subsection \<open>Fallback chains\<close>






subsection \<open>Ratings\<close>

text \<open>\<open>match_rating\<close> finds the leftmost occurrence of the pattern.\<close>

lemma rating_here_iff: "rating_here s = Some d \<longleftrightarrow> occurs_at s 0 d"
  by (auto simp: rating_here_def occurs_at_def asc_def prefix_def split: list.splits)

lemma occurs_at_Cons: "occurs_at (c # cs) (Suc k) d = occurs_at cs k d"
  by (simp add: occurs_at_def)

lemma occurs_at_Nil: "\<not> occurs_at [] k d"
  by (simp add: occurs_at_def asc_def)

lemma match_rating_None: "match_rating v = None \<longleftrightarrow> (\<forall>k d. \<not> occurs_at v k d)"
proof (induction v)
  case Nil
  then show ?case by (simp add: occurs_at_Nil)
next
  case (Cons c cs)
  have here: "rating_here (c # cs) = None \<longleftrightarrow> (\<forall>d. \<not> occurs_at (c # cs) 0 d)"
    using rating_here_iff [of "c # cs"] by (cases "rating_here (c # cs)") auto
  have shift: "(\<forall>k d. \<not> occurs_at (c # cs) k d) \<longleftrightarrow>
      (\<forall>d. \<not> occurs_at (c # cs) 0 d) \<and> (\<forall>k d. \<not> occurs_at cs k d)"
  proof
    assume a: "\<forall>k d. \<not> occurs_at (c # cs) k d"
    then have "\<forall>k d. \<not> occurs_at (c # cs) (Suc k) d" by blast
    with a show "(\<forall>d. \<not> occurs_at (c # cs) 0 d) \<and> (\<forall>k d. \<not> occurs_at cs k d)"
      by (simp add: occurs_at_Cons)
  next
    assume a: "(\<forall>d. \<not> occurs_at (c # cs) 0 d) \<and> (\<forall>k d. \<not> occurs_at cs k d)"
    show "\<forall>k d. \<not> occurs_at (c # cs) k d"
    proof (intro allI)
      fix k d
      show "\<not> occurs_at (c # cs) k d"
        using a by (cases k) (simp_all add: occurs_at_Cons)
    qed
  qed
  show ?case
  proof (cases "rating_here (c # cs)")
    case None
    with Cons.IH here shift show ?thesis by simp
  next
    case (Some d0)
    then have "occurs_at (c # cs) 0 d0" by (simp add: rating_here_iff)
    with Some show ?thesis by auto
  qed
qed

lemma match_rating_Some:
  "match_rating v = Some d \<longleftrightarrow>
     (\<exists>k. occurs_at v k d \<and> (\<forall>j<k. \<forall>d'. \<not> occurs_at v j d'))"
proof (induction v)
  case Nil
  then show ?case by (simp add: occurs_at_Nil)
next
  case (Cons c cs)
  show ?case
  proof (cases "rating_here (c # cs)")
    case (Some d0)
    then have at0: "occurs_at (c # cs) 0 d0" by (simp add: rating_here_iff)
    have uniq: "occurs_at (c # cs) 0 d \<Longrightarrow> d = d0" for d
      using at0 by (auto simp: occurs_at_def prefix_def)
    have "(\<exists>k. occurs_at (c # cs) k d \<and> (\<forall>j<k. \<forall>d'. \<not> occurs_at (c # cs) j d')) \<longleftrightarrow> d = d0"
    proof
      assume "\<exists>k. occurs_at (c # cs) k d \<and> (\<forall>j<k. \<forall>d'. \<not> occurs_at (c # cs) j d')"
      then obtain k where k: "occurs_at (c # cs) k d" "\<forall>j<k. \<forall>d'. \<not> occurs_at (c # cs) j d'"
        by blast
      have "k = 0"
      proof (rule ccontr)
        assume "k \<noteq> 0"
        then have "0 < k" by simp
        with k(2) at0 show False by blast
      qed
      with k(1) show "d = d0" using uniq by simp
    next
      assume "d = d0"
      with at0 show "\<exists>k. occurs_at (c # cs) k d \<and> (\<forall>j<k. \<forall>d'. \<not> occurs_at (c # cs) j d')"
        by (intro exI [of _ 0]) simp
    qed
    with Some show ?thesis by auto
  next
    case None
    then have no0: "\<not> occurs_at (c # cs) 0 d'" for d'
      using rating_here_iff [of "c # cs" d'] by simp
    have "(\<exists>k. occurs_at (c # cs) k d \<and> (\<forall>j<k. \<forall>d'. \<not> occurs_at (c # cs) j d')) \<longleftrightarrow>
          (\<exists>k. occurs_at cs k d \<and> (\<forall>j<k. \<forall>d'. \<not> occurs_at cs j d'))"
    proof
      assume "\<exists>k. occurs_at (c # cs) k d \<and> (\<forall>j<k. \<forall>d'. \<not> occurs_at (c # cs) j d')"
      then obtain k where k: "occurs_at (c # cs) k d" "\<forall>j<k. \<forall>d'. \<not> occurs_at (c # cs) j d'"
        by blast
      from k(1) no0 obtain k' where k': "k = Suc k'" by (cases k) auto
      have "\<forall>j<k'. \<forall>d'. \<not> occurs_at cs j d'"
      proof (intro allI impI)
        fix j d' assume "j < k'"
        then have "Suc j < k" using k' by simp
        with k(2) have "\<not> occurs_at (c # cs) (Suc j) d'" by blast
        then show "\<not> occurs_at cs j d'" by (simp add: occurs_at_Cons)
      qed
      moreover from k(1) k' have "occurs_at cs k' d" by (simp add: occurs_at_Cons)
      ultimately show "\<exists>k. occurs_at cs k d \<and> (\<forall>j<k. \<forall>d'. \<not> occurs_at cs j d')" by blast
    next
      assume "\<exists>k. occurs_at cs k d \<and> (\<forall>j<k. \<forall>d'. \<not> occurs_at cs j d')"
      then obtain k where k: "occurs_at cs k d" "\<forall>j<k. \<forall>d'. \<not> occurs_at cs j d'" by blast
      have "\<forall>j<Suc k. \<forall>d'. \<not> occurs_at (c # cs) j d'"
      proof (intro allI impI)
        fix j d' assume j: "j < Suc k"
        show "\<not> occurs_at (c # cs) j d'"
        proof (cases j)
          case 0
          then show ?thesis using no0 by simp
        next
          case (Suc j')
          with j k(2) show ?thesis by (simp add: occurs_at_Cons)
        qed
      qed
      moreover have "occurs_at (c # cs) (Suc k) d" using k(1) by (simp add: occurs_at_Cons)
      ultimately show "\<exists>k. occurs_at (c # cs) k d \<and> (\<forall>j<k. \<forall>d'. \<not> occurs_at (c # cs) j d')"
        by blast
    qed
    with None Cons.IH show ?thesis by simp
  qed
qed

lemma selects_class_begins:
  "selects q [[ClassBegins (asc ''rating'')]] x = class_begins_rating (snd x)"
  by (simp add: selects_def complex_ok_def class_begins_rating_def asc_def split: option.splits)

lemma querySelector_first:
  "querySelector q sels item = Some x \<Longrightarrow>
     \<exists>before after. descendants item = before @ x # after \<and> selects q sels x \<and>
       (\<forall>y \<in> set before. \<not> selects q sels y)"
  unfolding querySelector_def find_Some_iff
  by (metis id_take_nth_drop in_set_conv_nth length_take min.absorb4 nth_take)

text \<open>
  C3, as amended.  When the extraction of an item block does not fail, its rating is read
  from one element only: the first descendant, in tree order, whose class attribute value
  begins with \<^verbatim>\<open>rating\<close>.  Without such an element the rating is \<open>0\<close>.  With one, the
  rating is the digit of the leftmost occurrence of \<^verbatim>\<open>rating<digit>-t\<close> in its class
  attribute, and \<open>0\<close> when there is no occurrence.  Hence the rating is \<open>0\<close> whenever no
  class attribute in the block contains \<^verbatim>\<open>rating<digit>-t\<close>.
\<close>

theorem rating_from_first_rating_class:
  assumes "resolveRating q item = Inr n"
  shows "(querySelector q [[ClassBegins (asc ''rating'')]] item = None \<longrightarrow> n = 0) \<and>
         (\<forall>x. querySelector q [[ClassBegins (asc ''rating'')]] item = Some x \<longrightarrow>
            (\<exists>before after. descendants item = before @ x # after \<and>
               class_begins_rating (snd x) \<and> (\<forall>y \<in> set before. \<not> class_begins_rating (snd y))) \<and>
            ((\<forall>k d. \<not> occurs_at (className (snd x)) k d) \<longrightarrow> n = 0) \<and>
            (\<forall>k d. occurs_at (className (snd x)) k d \<and>
                    (\<forall>j<k. \<forall>d'. \<not> occurs_at (className (snd x)) j d') \<longrightarrow> n = parseInt d)) \<and>
         ((\<forall>y \<in> set (descendants item). \<forall>k d. \<not> occurs_at (className (snd y)) k d) \<longrightarrow> n = 0)"
proof (cases "querySelector q [[ClassBegins (asc ''rating'')]] item")
  case None
  with resolveRating_Inr [OF assms] show ?thesis by simp
next
  case (Some x)
  from querySelector_first [OF Some]
  obtain before after where first: "descendants item = before @ x # after"
      "class_begins_rating (snd x)" "\<forall>y \<in> set before. \<not> class_begins_rating (snd y)"
    by (auto simp: selects_class_begins)
  from resolveRating_Inr [OF assms] Some
  have m: "n = (case match_rating (className (snd x)) of None \<Rightarrow> 0 | Some d \<Rightarrow> parseInt d)"
    by simp
  have none: "(\<forall>k d. \<not> occurs_at (className (snd x)) k d) \<longrightarrow> n = 0"
    using m match_rating_None [of "className (snd x)"] by auto
  have left: "\<forall>k d. occurs_at (className (snd x)) k d \<and>
      (\<forall>j<k. \<forall>d'. \<not> occurs_at (className (snd x)) j d') \<longrightarrow> n = parseInt d"
  proof (intro allI impI)
    fix k d
    assume "occurs_at (className (snd x)) k d \<and> (\<forall>j<k. \<forall>d'. \<not> occurs_at (className (snd x)) j d')"
    then have "match_rating (className (snd x)) = Some d"
      using match_rating_Some [of "className (snd x)" d] by blast
    with m show "n = parseInt d" by simp
  qed
  have mem: "x \<in> set (descendants item)" using first(1) by simp
  have all: "(\<forall>y \<in> set (descendants item). \<forall>k d. \<not> occurs_at (className (snd y)) k d) \<longrightarrow> n = 0"
    using none mem by blast
  have ex: "\<exists>before after. descendants item = before @ x # after \<and>
      class_begins_rating (snd x) \<and> (\<forall>y \<in> set before. \<not> class_begins_rating (snd y))"
    using first by blast
  show ?thesis
    unfolding Some using ex none left all by simp
qed

text \<open>
  The claim as stated fails on \<open>doc_token\<close>: the class list \<^verbatim>\<open>x rating5-t\<close> has a token of
  the pattern after another token, and the rating of the record is \<open>0\<close>.
\<close>

theorem rating_token_position_counterexample:
  "length (itemBlocks doc_token) = 1 \<and>
   resolveRating True (hd (itemBlocks doc_token)) = Inr 0 \<and>
   spec_rating (hd (itemBlocks doc_token)) = 5 \<and>
   parseDoubanPage sample_engine doc_token Movie = Inr [simple_record ''T'' 0]"
  by code_simp

text \<open>The third block of \<open>doc_three\<close> has the rating 4.\<close>

theorem rating_from_first_rating_class_witness:
  "resolveRating True (itemBlocks doc_three ! 2) = Inr 4 \<and>
   querySelector True [[ClassBegins (asc ''rating'')]] (itemBlocks doc_three ! 2) \<noteq> None"
proof -
  have h: "resolveRating True (itemBlocks doc_three ! 2) = Inr 4"
    by code_simp
  show ?thesis
    using h rating_from_first_rating_class [OF h] by auto
qed

section \<open>The crawl\<close>

subsection \<open>What a page gives\<close>

lemma recordsOf_good:
  "r \<in> set (recordsOf E q cat item) \<Longrightarrow> category r = cat \<and> 0 \<le> rating r \<and> rating r \<le> 9"
  using recordsOf_cases [of E q cat item] resolveRating_range [of q item] by auto

lemma parse_good:
  "parseDoubanPage E doc cat = Inr rs \<Longrightarrow> r \<in> set rs \<Longrightarrow>
     category r = cat \<and> 0 \<le> rating r \<and> rating r \<le> 9"
  using recordsOf_good by (fastforce dest: parseDoubanPage_Inr)

lemma pageItems_good:
  "pageItems E f P url ck cat = Inr rs \<Longrightarrow> r \<in> set rs \<Longrightarrow>
     category r = cat \<and> 0 \<le> rating r \<and> rating r \<le> 9"
  unfolding pageItems_def
  by (auto split: sum.splits if_splits dest: parse_good)

lemma pageStep_cases:
  "pageStep E F P uid ck cat page st =
     (case pageItems E (F (length (requested st))) P (pageUrl cat uid (start st)) ck cat of
        Inl e \<Rightarrow> (Break, onLog (msg_stopped cat (message e)) (after_request cat uid ck page st))
      | Inr items \<Rightarrow>
          if items = []
          then (Break, if page = 1 then onLog (msg_no_data cat) (after_request cat uid ck page st)
                       else after_request cat uid ck page st)
          else (case push_spread E ReviewsPush (allReviews st) items of
                  Inl e \<Rightarrow>
                    (Break, onLog (msg_stopped cat (message e))
                              (onLog (msg_captured (length items))
                                 (after_request cat uid ck page st)))
                | Inr collected \<Rightarrow>
                    (Continue, (onLog (msg_captured (length items))
                                  (after_request cat uid ck page st))
                       \<lparr>allReviews := collected, start := start st + 15\<rparr>)))"
  by (simp add: pageStep_def pageTry_def Let_def onLog_def after_request_def
      split: sum.splits)

lemma push_spread_Inr: "push_spread E site xs ys = Inr zs \<Longrightarrow> zs = xs @ ys"
  by (simp add: push_spread_def split: if_splits)

lemma after_request_fields [simp]:
  "allReviews (after_request cat uid ck page st) = allReviews st"
  "start (after_request cat uid ck page st) = start st"
  "requested (after_request cat uid ck page st) = requested st @ [pageUrl cat uid (start st)]"
  "logged (after_request cat uid ck page st) = logged st @ [msg_request cat page]"
  by (simp_all add: after_request_def)

lemma onLog_fields [simp]:
  "allReviews (onLog m st) = allReviews st"
  "start (onLog m st) = start st"
  "requested (onLog m st) = requested st"
  "logged (onLog m st) = logged st @ [m]"
  "slept (onLog m st) = slept st"
  by (simp_all add: onLog_def)

lemma pageUrl_prefix:
  "prefix (asc ''https://'' @ subdomain cat @ asc ''.douban.com/'') (pageUrl cat uid n)"
  by (simp add: pageUrl_def asc_def)

subsection \<open>What holds throughout a crawl\<close>

lemma pageStep_inv:
  assumes "crawl_inv cats st" and "cat \<in> set cats"
  shows "crawl_inv cats (snd (pageStep E F P uid ck cat page st))"
proof (cases "pageItems E (F (length (requested st))) P (pageUrl cat uid (start st)) ck cat")
  case (Inl e)
  with assms show ?thesis
    using pageUrl_prefix [of cat uid "start st"]
    by (auto simp: pageStep_cases crawl_inv_def)
next
  case (Inr items)
  have good: "\<forall>r \<in> set items. category r \<in> set cats \<and> 0 \<le> rating r \<and> rating r \<le> 9"
    using pageItems_good [OF Inr] assms(2) by blast
  with assms Inr show ?thesis
    using pageUrl_prefix [of cat uid "start st"]
    by (auto simp: pageStep_cases crawl_inv_def split: sum.splits dest!: push_spread_Inr)
qed

lemma pageLoop_break:
  "page \<le> maxPages \<Longrightarrow> pageStep E F P uid ck cat page st = (Break, st') \<Longrightarrow>
     pageLoop E F P uid ck cat page st = st'"
  by (subst pageLoop.simps) simp

lemma pageLoop_continue:
  "page \<le> maxPages \<Longrightarrow> pageStep E F P uid ck cat page st = (Continue, st') \<Longrightarrow>
     pageLoop E F P uid ck cat page st = pageLoop E F P uid ck cat (page + 1) st'"
  by (subst pageLoop.simps) simp

lemma pageLoop_done: "\<not> page \<le> maxPages \<Longrightarrow> pageLoop E F P uid ck cat page st = st"
  by (subst pageLoop.simps) simp

lemma pageLoop_inv:
  "crawl_inv cats st \<Longrightarrow> cat \<in> set cats \<Longrightarrow> crawl_inv cats (pageLoop E F P uid ck cat page st)"
proof (induction E F P uid ck cat page st rule: pageLoop.induct)
  case (1 E F P uid ck cat page st)
  show ?case
  proof (cases "page \<le> maxPages")
    case False
    with "1.prems" show ?thesis by (simp add: pageLoop_done)
  next
    case True
    obtain fl st' where step: "pageStep E F P uid ck cat page st = (fl, st')"
      by (cases "pageStep E F P uid ck cat page st") auto
    have inv': "crawl_inv cats st'"
      using pageStep_inv [OF "1.prems", of E F P uid ck page] step by simp
    show ?thesis
    proof (cases fl)
      case Break
      with True step inv' show ?thesis by (simp add: pageLoop_break)
    next
      case Continue
      with True step have "pageLoop E F P uid ck cat page st = pageLoop E F P uid ck cat (page + 1) st'"
        by (simp add: pageLoop_continue)
      moreover have "crawl_inv cats (pageLoop E F P uid ck cat (page + 1) st')"
        using "1.IH" [OF True step [symmetric] Continue inv' "1.prems"(2)] .
      ultimately show ?thesis by simp
    qed
  qed
qed

lemma categoryLoop_inv:
  "crawl_inv cats st \<Longrightarrow> set cs \<subseteq> set cats \<Longrightarrow> crawl_inv cats (categoryLoop E F P uid ck cs st)"
proof (induction cs arbitrary: st)
  case Nil
  then show ?case by simp
next
  case (Cons c cs)
  have "crawl_inv cats (st\<lparr>start := 0\<rparr>)" using Cons.prems(1) by (simp add: crawl_inv_def)
  then have "crawl_inv cats (pageLoop E F P uid ck c 1 (st\<lparr>start := 0\<rparr>))"
    using Cons.prems(2) by (intro pageLoop_inv) auto
  with Cons show ?case by simp
qed

lemma initial_fields [simp]:
  "allReviews (initial ck) = []" "start (initial ck) = 0" "requested (initial ck) = []"
  "slept (initial ck) = []"
  by (simp_all add: initial_def)

lemma initial_start [simp]: "(initial ck)\<lparr>start := 0\<rparr> = initial ck"
  by (simp add: initial_def onLog_def)

lemma crawl_final_inv: "crawl_inv categories (snd (crawlUserReviews E F P uid ck))"
proof -
  have "crawl_inv categories (initial ck)" by (simp add: crawl_inv_def)
  then have "crawl_inv categories (categoryLoop E F P uid ck categories (initial ck))"
    by (intro categoryLoop_inv) auto
  then show ?thesis by (simp add: crawlUserReviews_def Let_def)
qed

lemma crawl_result:
  "fst (crawlUserReviews E F P uid ck) = Inr rs \<Longrightarrow> rs = allReviews (snd (crawlUserReviews E F P uid ck))"
  by (auto simp: crawlUserReviews_def Let_def split: if_splits)

lemma crawl_single_category:
  "snd (crawlUserReviews E F P uid ck) = pageLoop E F P uid ck Movie 1 (initial ck)"
  by (simp add: crawlUserReviews_def Let_def categories_def)

lemma crawl_fst:
  "fst (crawlUserReviews E F P uid ck) =
     (if allReviews (snd (crawlUserReviews E F P uid ck)) = [] then Inl (Error msg_empty)
      else Inr (allReviews (snd (crawlUserReviews E F P uid ck))))"
  by (simp add: crawlUserReviews_def Let_def)

subsection \<open>The range of ratings\<close>

text \<open>
  C4, as amended.  For every document, every record that \<^verbatim>\<open>parseDoubanPage\<close> produces, and
  hence every record that \<^verbatim>\<open>crawlUserReviews\<close> returns, has an integer rating from 0 to 9:
  the rating is one decimal digit, and nothing bounds it by 5.
\<close>

theorem rating_between_0_and_9:
  "(\<forall>rs. parseDoubanPage E doc cat = Inr rs \<longrightarrow> (\<forall>r \<in> set rs. 0 \<le> rating r \<and> rating r \<le> 9)) \<and>
   (\<forall>rs. fst (crawlUserReviews E F P uid ck) = Inr rs \<longrightarrow>
      (\<forall>r \<in> set rs. 0 \<le> rating r \<and> rating r \<le> 9))"
proof -
  have "\<forall>r \<in> set rs. 0 \<le> rating r \<and> rating r \<le> 9" if "parseDoubanPage E doc cat = Inr rs" for rs
    using parse_good [OF that] by blast
  moreover have "\<forall>r \<in> set rs. 0 \<le> rating r \<and> rating r \<le> 9"
    if "fst (crawlUserReviews E F P uid ck) = Inr rs" for rs
    using crawl_final_inv [of E F P uid ck] crawl_result [OF that] by (simp add: crawl_inv_def)
  ultimately show ?thesis by blast
qed

text \<open>
  The claim as stated fails on \<open>doc_nine\<close>: the class \<^verbatim>\<open>rating9-t\<close> gives the rating 9, in
  the extraction and in the result of a crawl that is served this page.
\<close>

theorem rating_at_most_5_counterexample:
  "parseDoubanPage sample_engine doc_nine Movie = Inr [simple_record ''T'' 9] \<and>
   fst (crawlUserReviews sample_engine (net_pages 1 html_nine) sample_parser (asc ''u'') []) =
     Inr [simple_record ''T'' 9] \<and>
   \<not> rating (simple_record ''T'' 9) \<le> 5"
  by code_simp

text \<open>The same crawl, within the bounds proved.\<close>

theorem rating_between_0_and_9_witness:
  "fst (crawlUserReviews sample_engine (net_pages 1 html_nine) sample_parser (asc ''u'') []) =
     Inr [simple_record ''T'' 9] \<and>
   0 \<le> rating (simple_record ''T'' 9) \<and> rating (simple_record ''T'' 9) \<le> 9"
proof -
  have run: "fst (crawlUserReviews sample_engine (net_pages 1 html_nine) sample_parser (asc ''u'') []) =
      Inr [simple_record ''T'' 9]"
    by code_simp
  show ?thesis
    using run rating_between_0_and_9 [of sample_engine doc_nine Movie "net_pages 1 html_nine"
        sample_parser "asc ''u''" "[]"]
    by simp
qed

subsection \<open>The only category\<close>

text \<open>
  C10.  Whatever the user id, the cookie, the network and the parser, every page that
  \<^verbatim>\<open>crawlUserReviews\<close> requests is on the movie subdomain, and every record that it returns
  has the category \<^verbatim>\<open>movie\<close>.
\<close>

theorem only_movie:
  "(\<forall>u \<in> set (requested (snd (crawlUserReviews E F P uid ck))).
      prefix (asc ''https://movie.douban.com/'') u) \<and>
   (\<forall>rs. fst (crawlUserReviews E F P uid ck) = Inr rs \<longrightarrow> (\<forall>r \<in> set rs. category r = Movie))"
proof -
  have inv: "crawl_inv [Movie] (snd (crawlUserReviews E F P uid ck))"
    using crawl_final_inv [of E F P uid ck] by (simp add: categories_def)
  have sub: "asc ''https://'' @ subdomain Movie @ asc ''.douban.com/'' = asc ''https://movie.douban.com/''"
    by (simp add: subdomain_def asc_def)
  have urls: "\<forall>u \<in> set (requested (snd (crawlUserReviews E F P uid ck))).
      prefix (asc ''https://movie.douban.com/'') u"
    using inv sub by (simp add: crawl_inv_def)
  have "\<forall>r \<in> set rs. category r = Movie" if "fst (crawlUserReviews E F P uid ck) = Inr rs" for rs
    using inv crawl_result [OF that] by (simp add: crawl_inv_def)
  with urls show ?thesis by blast
qed

text \<open>A crawl of two requests that returns one record.\<close>

theorem only_movie_witness:
  "requested (snd (crawlUserReviews sample_engine (net_pages 1 html_nine) sample_parser (asc ''u'') [])) =
     [pageUrl Movie (asc ''u'') 0, pageUrl Movie (asc ''u'') 15] \<and>
   prefix (asc ''https://movie.douban.com/'') (pageUrl Movie (asc ''u'') 15) \<and>
   fst (crawlUserReviews sample_engine (net_pages 1 html_nine) sample_parser (asc ''u'') []) =
     Inr [simple_record ''T'' 9] \<and>
   category (simple_record ''T'' 9) = Movie"
proof -
  have req: "requested (snd (crawlUserReviews sample_engine (net_pages 1 html_nine) sample_parser (asc ''u'') [])) =
      [pageUrl Movie (asc ''u'') 0, pageUrl Movie (asc ''u'') 15]"
    by code_simp
  have run: "fst (crawlUserReviews sample_engine (net_pages 1 html_nine) sample_parser (asc ''u'') []) =
      Inr [simple_record ''T'' 9]"
    by code_simp
  show ?thesis
    using req run only_movie [of sample_engine "net_pages 1 html_nine" sample_parser
        "asc ''u''" "[]"]
    by simp
qed

subsection \<open>A connection failure\<close>

lemma maxPages_pos [simp]: "1 \<le> maxPages"
  by (simp add: maxPages_def)

lemma pageItems_transport_error:
  "fetchViaLocalServer f url ck = Inl e \<Longrightarrow> pageItems E f P url ck cat = Inl e"
  by (simp add: pageItems_def)

lemma pageItems_success:
  "fetchViaLocalServer f url ck = Inr html \<Longrightarrow>
   \<not> str_includes html marker_abnormal \<Longrightarrow> \<not> str_includes html marker_login \<Longrightarrow>
   pageItems E f P url ck cat = parseDoubanPage E (P html) cat"
  by (simp add: pageItems_def)

text \<open>
  C1, as amended.  If the transport \<^verbatim>\<open>fetchViaLocalServer\<close> fails with the connection
  failure on the first call (a fortiori if it does on every call), then for every user id
  and cookie \<^verbatim>\<open>crawlUserReviews\<close> requests that one page only, gives the message of the
  connection failure, which names \<^verbatim>\<open>node proxy.js\<close>, to the log in the line that reports
  the stop of the category, and fails with the error for an empty result.
\<close>

theorem connection_failure_is_logged:
  assumes "fetchViaLocalServer (F 0) (pageUrl Movie uid 0) ck = Inl (Error msg_no_proxy)"
  shows "crawlUserReviews E F P uid ck =
           (Inl (Error msg_empty),
            onLog (msg_stopped Movie msg_no_proxy) (after_request Movie uid ck 1 (initial ck))) \<and>
         requested (snd (crawlUserReviews E F P uid ck)) = [pageUrl Movie uid 0] \<and>
         logged (snd (crawlUserReviews E F P uid ck)) =
           logged (initial ck) @ [msg_request Movie 1, msg_stopped Movie msg_no_proxy]"
proof -
  have items: "pageItems E (F 0) P (pageUrl Movie uid 0) ck Movie = Inl (Error msg_no_proxy)"
    using assms by (simp add: pageItems_transport_error)
  have step: "pageStep E F P uid ck Movie 1 (initial ck) =
      (Break, onLog (msg_stopped Movie msg_no_proxy) (after_request Movie uid ck 1 (initial ck)))"
    by (simp add: pageStep_cases items)
  have final: "snd (crawlUserReviews E F P uid ck) =
      onLog (msg_stopped Movie msg_no_proxy) (after_request Movie uid ck 1 (initial ck))"
    using pageLoop_break [OF maxPages_pos step] by (simp add: crawl_single_category)
  have "fst (crawlUserReviews E F P uid ck) = Inl (Error msg_empty)"
    by (simp add: crawl_fst final)
  with final show ?thesis
    by (simp add: prod_eq_iff)
qed

text \<open>
  The claim as stated fails on \<open>net_refused\<close>, where every call of the transport fails
  with the connection failure: the error that \<^verbatim>\<open>crawlUserReviews\<close> fails with is the one
  for an empty result, and its message does not name the proxy.
\<close>

theorem network_error_counterexample:
  "fetchViaLocalServer (net_refused 0) (pageUrl Movie (asc ''u'') 0) [] = Inl (Error msg_no_proxy) \<and>
   fetchViaLocalServer (net_refused 1) (pageUrl Movie (asc ''u'') 15) [] = Inl (Error msg_no_proxy) \<and>
   fst (crawlUserReviews sample_engine net_refused sample_parser (asc ''u'') []) = Inl (Error msg_empty) \<and>
   \<not> mentions_proxy msg_empty \<and>
   mentions_proxy msg_no_proxy"
  by code_simp

text \<open>The log of that call.\<close>

theorem connection_failure_is_logged_witness:
  "fetchViaLocalServer (net_refused 0) (pageUrl Movie (asc ''u'') 0) [] = Inl (Error msg_no_proxy) \<and>
   fst (crawlUserReviews sample_engine net_refused sample_parser (asc ''u'') []) = Inl (Error msg_empty) \<and>
   logged (snd (crawlUserReviews sample_engine net_refused sample_parser (asc ''u'') [])) =
     [msg_mode, msg_ensure, msg_guest, msg_request Movie 1, msg_stopped Movie msg_no_proxy]"
proof -
  have h: "fetchViaLocalServer (net_refused 0) (pageUrl Movie (asc ''u'') 0) [] =
      Inl (Error msg_no_proxy)"
    by code_simp
  have l: "logged (initial []) = [msg_mode, msg_ensure, msg_guest]"
    by (simp add: initial_def onLog_def)
  show ?thesis
    using h l connection_failure_is_logged [where F = net_refused and uid = "asc ''u''"
        and ck = "[]" and P = sample_parser and E = sample_engine]
    by simp
qed

subsection \<open>A first page without records\<close>

text \<open>
  C7.  If the first page is fetched, is not a block page, and gives no record, then the
  \<^verbatim>\<open>try\<close> block of the page ends without an error and leaves the loop: the first page is
  the only page requested, there is no pause, and the log has the line that announces the
  request and the line that reports that there is no data, and no line for a stop on error.
  That line is there because the page is the first: the same turn for a later page logs
  the request only.  The call then fails with the error for an empty result, since
  nothing was collected.
\<close>

theorem empty_first_page_stops:
  assumes "fetchViaLocalServer (F 0) (pageUrl Movie uid 0) ck = Inr html"
    and "\<not> str_includes html marker_abnormal" and "\<not> str_includes html marker_login"
    and "parseDoubanPage E (P html) Movie = Inr []"
  shows "pageTry E F P uid ck Movie 1 (initial ck) =
           Inr (Break, onLog (msg_no_data Movie) (after_request Movie uid ck 1 (initial ck))) \<and>
         requested (snd (crawlUserReviews E F P uid ck)) = [pageUrl Movie uid 0] \<and>
         logged (snd (crawlUserReviews E F P uid ck)) =
           logged (initial ck) @ [msg_request Movie 1, msg_no_data Movie] \<and>
         fst (crawlUserReviews E F P uid ck) = Inl (Error msg_empty) \<and>
         slept (snd (crawlUserReviews E F P uid ck)) = [] \<and>
         (\<forall>page. 1 < page \<longrightarrow>
            pageStep E F P uid ck Movie page (initial ck) =
              (Break, after_request Movie uid ck page (initial ck)) \<and>
            logged (snd (pageStep E F P uid ck Movie page (initial ck))) =
              logged (initial ck) @ [msg_request Movie page])"
proof -
  have items: "pageItems E (F 0) P (pageUrl Movie uid 0) ck Movie = Inr []"
    using assms by (simp add: pageItems_success)
  have step: "pageStep E F P uid ck Movie 1 (initial ck) =
      (Break, onLog (msg_no_data Movie) (after_request Movie uid ck 1 (initial ck)))"
    by (simp add: pageStep_cases items)
  have final: "snd (crawlUserReviews E F P uid ck) =
      onLog (msg_no_data Movie) (after_request Movie uid ck 1 (initial ck))"
    using pageLoop_break [OF maxPages_pos step] by (simp add: crawl_single_category)
  have later: "pageStep E F P uid ck Movie page (initial ck) =
      (Break, after_request Movie uid ck page (initial ck))" if "1 < page" for page
    using that by (simp add: pageStep_cases items)
  have tried: "pageTry E F P uid ck Movie 1 (initial ck) =
      Inr (Break, onLog (msg_no_data Movie) (after_request Movie uid ck 1 (initial ck)))"
    by (simp add: pageTry_def Let_def items onLog_def after_request_def)
  have "fst (crawlUserReviews E F P uid ck) = Inl (Error msg_empty)"
    by (simp add: crawl_fst final)
  then show ?thesis
    using tried final later by (simp add: after_request_def)
qed

text \<open>A server that sends a page without item blocks.\<close>

theorem empty_first_page_stops_witness:
  "fetchViaLocalServer (net_pages 4 html_plain 0) (pageUrl Movie (asc ''u'') 0) (asc ''c'') = Inr html_plain \<and>
   \<not> str_includes html_plain marker_abnormal \<and> \<not> str_includes html_plain marker_login \<and>
   parseDoubanPage sample_engine (sample_parser html_plain) Movie = Inr [] \<and>
   requested (snd (crawlUserReviews sample_engine (net_pages 4 html_plain) sample_parser (asc ''u'') (asc ''c''))) =
     [pageUrl Movie (asc ''u'') 0] \<and>
   logged (snd (crawlUserReviews sample_engine (net_pages 4 html_plain) sample_parser (asc ''u'') (asc ''c''))) =
     [msg_mode, msg_ensure, msg_cookie, msg_request Movie 1, msg_no_data Movie]"
proof -
  have h1: "fetchViaLocalServer (net_pages 4 html_plain 0) (pageUrl Movie (asc ''u'') 0) (asc ''c'') =
      Inr html_plain"
    by code_simp
  have h2: "\<not> str_includes html_plain marker_abnormal" by code_simp
  have h3: "\<not> str_includes html_plain marker_login" by code_simp
  have h4: "parseDoubanPage sample_engine (sample_parser html_plain) Movie = Inr []" by code_simp
  have l: "logged (initial (asc ''c'')) = [msg_mode, msg_ensure, msg_cookie]"
    by (simp add: initial_def onLog_def asc_def)
  show ?thesis
    using h1 h2 h3 h4 l empty_first_page_stops [where F = "net_pages 4 html_plain"
        and uid = "asc ''u''" and ck = "asc ''c''" and html = html_plain and P = sample_parser
        and E = sample_engine]
    by simp
qed

subsection \<open>The page offset\<close>

lemma pageStep_requested:
  "requested (snd (pageStep E F P uid ck cat page st)) = requested st @ [pageUrl cat uid (start st)]"
  by (simp add: pageStep_cases split: sum.splits)

lemma pageStep_outcomes:
  "pageStep E F P uid ck cat page st = (fl, st') \<Longrightarrow>
     (fl = Continue \<and> start st' = start st + 15 \<and>
        (\<exists>items. pageItems E (F (length (requested st))) P (pageUrl cat uid (start st)) ck cat =
                   Inr items \<and> items \<noteq> [] \<and> allReviews st' = allReviews st @ items)) \<or>
     (fl = Break \<and> start st' = start st \<and> allReviews st' = allReviews st)"
  by (auto simp: pageStep_cases split: sum.splits if_splits dest!: push_spread_Inr)

lemma pageLoop_offsets:
  "start st = 15 * length (requested st) \<Longrightarrow>
     \<exists>m. m \<le> maxPages + 1 - page \<and> (page \<le> maxPages \<longrightarrow> 1 \<le> m) \<and>
       requested (pageLoop E F P uid ck cat page st) =
         requested st @ map (\<lambda>i. pageUrl cat uid (15 * i))
                           [length (requested st) ..< length (requested st) + m]"
proof (induction E F P uid ck cat page st rule: pageLoop.induct)
  case (1 E F P uid ck cat page st)
  let ?n = "length (requested st)"
  show ?case
  proof (cases "page \<le> maxPages")
    case False
    then have "pageLoop E F P uid ck cat page st = st" by (simp add: pageLoop_done)
    with False show ?thesis by (intro exI [of _ 0]) simp
  next
    case True
    obtain fl st' where step: "pageStep E F P uid ck cat page st = (fl, st')"
      by (cases "pageStep E F P uid ck cat page st") auto
    have req': "requested st' = requested st @ [pageUrl cat uid (15 * ?n)]"
      using pageStep_requested [of E F P uid ck cat page st] step "1.prems" by simp
    show ?thesis
    proof (cases fl)
      case Break
      with True step have "pageLoop E F P uid ck cat page st = st'" by (simp add: pageLoop_break)
      with req' True show ?thesis by (intro exI [of _ 1]) simp
    next
      case Continue
      have "start st' = start st + 15"
        using pageStep_outcomes [OF step] Continue by auto
      with req' "1.prems" have inv': "start st' = 15 * length (requested st')" by simp
      from "1.IH" [OF True step [symmetric] Continue inv']
      obtain m where m: "m \<le> maxPages + 1 - (page + 1)"
          "requested (pageLoop E F P uid ck cat (page + 1) st') =
             requested st' @ map (\<lambda>i. pageUrl cat uid (15 * i))
               [length (requested st') ..< length (requested st') + m]"
        by blast
      have loop: "pageLoop E F P uid ck cat page st = pageLoop E F P uid ck cat (page + 1) st'"
        using True step Continue by (simp add: pageLoop_continue)
      have "[?n ..< ?n + Suc m] = ?n # [Suc ?n ..< Suc ?n + m]"
        by (simp add: upt_conv_Cons)
      with m(2) req' loop have "requested (pageLoop E F P uid ck cat page st) =
          requested st @ map (\<lambda>i. pageUrl cat uid (15 * i)) [?n ..< ?n + Suc m]"
        by simp
      moreover have "Suc m \<le> maxPages + 1 - page" using m(1) True by simp
      ultimately show ?thesis by (intro exI [of _ "Suc m"]) simp
    qed
  qed
qed

text \<open>The long page: every block gives the same record, and no marker is in the page.\<close>

lemma concat_replicate_single: "concat (replicate n [y]) = replicate n y"
  by (induction n) simp_all

lemma itemBlocks_page_of:
  "itemBlocks (page_of ks) =
     filter (selects True [[Class (asc ''item'')], [Class (asc ''subject-item'')]])
       (concat (map (subtree
          [Element HTMLElement (asc ''body'') None ks,
           Element HTMLElement (asc ''html'') None
             [Element HTMLElement (asc ''head'') None [],
              Element HTMLElement (asc ''body'') None ks]]) ks))"
  by (simp add: itemBlocks_def querySelectorAll_def page_of_def selects_def complex_ok_def
      has_class_def class_tokens_def)

lemma item_titled_block:
  "filter (selects True [[Class (asc ''item'')], [Class (asc ''subject-item'')]])
     (subtree anc (item_titled ''T'' [])) = [(anc, item_titled ''T'' [])]"
  by (simp add: item_titled_def div_class_def anchor_def selects_def complex_ok_def
      has_class_def class_tokens_def asc_def is_ascii_ws_def ascii_lower_def)

lemma item_titled_record:
  "recordsOf E True Movie (anc, item_titled ''T'' []) = [simple_record ''T'' 0]"
  by (simp add: recordsOf_def extractItem_def resolveTitle_def resolveRating_def
      resolveComment_def resolveDate_def resolveTags_def item_querySelector_def shadowed_def
      querySelector_def orElse_def trimmedText_def trim_def is_ws_def
      item_titled_def div_class_def anchor_def selects_def complex_ok_def
      has_class_def class_tokens_def asc_def is_ascii_ws_def ascii_lower_def simple_record_def)


lemma itemBlocks_replicate:
  "\<exists>anc. itemBlocks (page_of (replicate n (item_titled ''T'' []))) =
     replicate n (anc, item_titled ''T'' [])"
  by (simp add: itemBlocks_page_of filter_concat item_titled_block concat_replicate_single
      comp_def)

lemma parse_replicate:
  "parseDoubanPage E (page_of (replicate n (item_titled ''T'' []))) Movie =
     Inr (replicate n (simple_record ''T'' 0))"
proof -
  obtain anc where blocks: "itemBlocks (page_of (replicate n (item_titled ''T'' []))) =
      replicate n (anc, item_titled ''T'' [])"
    using itemBlocks_replicate by blast
  have ok: "\<not> shadows_queries (page_of (replicate n (item_titled ''T'' [])))"
    by (simp add: shadows_queries_def page_of_def)
  have q: "quirks (page_of (replicate n (item_titled ''T'' []))) = True"
    by (simp add: page_of_def)
  show ?thesis
    by (simp add: parseDoubanPage_eq [OF ok] blocks q item_titled_record
        concat_replicate_single)
qed

lemma str_includes_ascii:
  "\<forall>c \<in> set s. c < 128 \<Longrightarrow> 128 \<le> m \<Longrightarrow> \<not> str_includes s (m # ms)"
  by (induction s) auto

lemma html_big_ascii: "\<forall>c \<in> set html_big. c < 128"
  by (auto simp: html_big_def html_item_def asc_def)

lemma fetch_resolved:
  "encodeURIComponent ck = Inr a \<Longrightarrow> encodeURIComponent url = Inr b \<Longrightarrow>
     response_ok status \<Longrightarrow>
     fetchViaLocalServer (\<lambda>u. Response status (Inr html)) url ck = Inr html"
  by (simp add: fetchViaLocalServer_def fetch_try_def)

lemma big_page_items:
  "pageItems E (net_big k) big_parser (pageUrl Movie (asc ''u'') 0) [] Movie =
     Inr (replicate 126000 (simple_record ''T'' 0))"
proof -
  have url: "encodeURIComponent (pageUrl Movie (asc ''u'') 0) =
      Inr (projr (encodeURIComponent (pageUrl Movie (asc ''u'') 0)))"
  proof -
    have "\<not> isl (encodeURIComponent (pageUrl Movie (asc ''u'') 0))" by code_simp
    then show ?thesis by (cases "encodeURIComponent (pageUrl Movie (asc ''u'') 0)") simp_all
  qed
  have fetched: "fetchViaLocalServer (net_big k) (pageUrl Movie (asc ''u'') 0) [] = Inr html_big"
    unfolding net_big_def
    by (rule fetch_resolved [OF _ url]) (simp_all add: response_ok_def)
  have m1: "\<not> str_includes html_big marker_abnormal"
    unfolding marker_abnormal_def by (rule str_includes_ascii [OF html_big_ascii]) simp
  have m2: "\<not> str_includes html_big marker_login"
    unfolding marker_login_def by (rule str_includes_ascii [OF html_big_ascii]) simp
  show ?thesis
    by (simp add: pageItems_def fetched m1 m2 big_parser_def doc_big_def parse_replicate)
qed

text \<open>
  C6, as amended.  In every turn of the page loop, from every state, the offset
  \<^verbatim>\<open>start\<close> goes up by 15 exactly when the extraction of the page gave at least one record
  and these records were appended to the collection, which is also exactly when the loop
  goes on; otherwise it stays as it was and the loop ends.  It stays in particular on a
  page without records and on a page whose fetch failed.  Hence the pages that a crawl
  requests, at least one and at most four, are those of the offsets \<open>0, 15, 30, ...\<close> in
  this order.
\<close>

theorem start_advances_iff_records_appended:
  "(\<forall>fl st'. pageStep E F P uid ck cat page st = (fl, st') \<longrightarrow>
      (start st' = start st + 15 \<longleftrightarrow>
         (\<exists>items. pageItems E (F (length (requested st))) P (pageUrl cat uid (start st)) ck cat =
                    Inr items \<and> items \<noteq> [] \<and> allReviews st' = allReviews st @ items)) \<and>
      (start st' \<noteq> start st + 15 \<longrightarrow> start st' = start st \<and> fl = Break) \<and>
      (fl = Continue \<longleftrightarrow> start st' = start st + 15) \<and>
      ((\<exists>e. pageItems E (F (length (requested st))) P (pageUrl cat uid (start st)) ck cat = Inl e) \<or>
       pageItems E (F (length (requested st))) P (pageUrl cat uid (start st)) ck cat = Inr []
         \<longrightarrow> start st' = start st)) \<and>
   (\<exists>m. 1 \<le> m \<and> m \<le> maxPages \<and>
      requested (snd (crawlUserReviews E F P uid ck)) =
        map (\<lambda>i. pageUrl Movie uid (15 * i)) [0 ..< m])"
proof -
  have step: "(start st' = start st + 15 \<longleftrightarrow>
         (\<exists>items. pageItems E (F (length (requested st))) P (pageUrl cat uid (start st)) ck cat =
                    Inr items \<and> items \<noteq> [] \<and> allReviews st' = allReviews st @ items)) \<and>
      (start st' \<noteq> start st + 15 \<longrightarrow> start st' = start st \<and> fl = Break) \<and>
      (fl = Continue \<longleftrightarrow> start st' = start st + 15) \<and>
      ((\<exists>e. pageItems E (F (length (requested st))) P (pageUrl cat uid (start st)) ck cat = Inl e) \<or>
       pageItems E (F (length (requested st))) P (pageUrl cat uid (start st)) ck cat = Inr []
         \<longrightarrow> start st' = start st)"
    if "pageStep E F P uid ck cat page st = (fl, st')" for fl st'
    using pageStep_outcomes [OF that] by auto
  have "\<exists>m. m \<le> maxPages + 1 - 1 \<and> (1 \<le> maxPages \<longrightarrow> 1 \<le> m) \<and>
      requested (pageLoop E F P uid ck Movie 1 (initial ck)) =
      requested (initial ck) @ map (\<lambda>i. pageUrl Movie uid (15 * i))
        [length (requested (initial ck)) ..< length (requested (initial ck)) + m]"
    by (intro pageLoop_offsets) simp
  then have "\<exists>m. 1 \<le> m \<and> m \<le> maxPages \<and>
      requested (snd (crawlUserReviews E F P uid ck)) =
        map (\<lambda>i. pageUrl Movie uid (15 * i)) [0 ..< m]"
    by (auto simp: crawl_single_category maxPages_def)
  with step show ?thesis by blast
qed

text \<open>
  The claim as stated fails on the long page: its extraction gives 126000 records, the call
  that appends them throws, and the \<^verbatim>\<open>catch\<close> clause ends the loop with the offset as it
  was and nothing collected.
\<close>

theorem start_unchanged_on_long_page_counterexample:
  "pageItems sample_engine (net_big 0) big_parser (pageUrl Movie (asc ''u'') 0) [] Movie =
     Inr (replicate 126000 (simple_record ''T'' 0)) \<and>
   replicate 126000 (simple_record ''T'' 0) \<noteq> [] \<and>
   pageStep sample_engine net_big big_parser (asc ''u'') [] Movie 1 (initial []) =
     (Break,
      onLog (msg_stopped Movie (asc ''Maximum call stack size exceeded''))
        (onLog (msg_captured 126000) (after_request Movie (asc ''u'') [] 1 (initial [])))) \<and>
   start (snd (pageStep sample_engine net_big big_parser (asc ''u'') [] Movie 1 (initial []))) =
     start (initial []) \<and>
   fst (crawlUserReviews sample_engine net_big big_parser (asc ''u'') []) = Inl (Error msg_empty)"
proof -
  have items: "pageItems sample_engine (net_big 0) big_parser (pageUrl Movie (asc ''u'') 0) [] Movie =
      Inr (replicate 126000 (simple_record ''T'' 0))"
    by (rule big_page_items)
  have ne: "replicate 126000 (simple_record ''T'' 0) \<noteq> []"
    by simp
  have step: "pageStep sample_engine net_big big_parser (asc ''u'') [] Movie 1 (initial []) =
      (Break,
       onLog (msg_stopped Movie (asc ''Maximum call stack size exceeded''))
         (onLog (msg_captured 126000) (after_request Movie (asc ''u'') [] 1 (initial []))))"
    using items by (simp add: pageStep_cases push_spread_def sample_engine_def)
  have final: "snd (crawlUserReviews sample_engine net_big big_parser (asc ''u'') []) =
      onLog (msg_stopped Movie (asc ''Maximum call stack size exceeded''))
        (onLog (msg_captured 126000) (after_request Movie (asc ''u'') [] 1 (initial [])))"
    using pageLoop_break [OF maxPages_pos step] by (simp add: crawl_single_category)
  have failed: "fst (crawlUserReviews sample_engine net_big big_parser (asc ''u'') []) =
      Inl (Error msg_empty)"
    by (simp add: crawl_fst final)
  show ?thesis
    using items ne step failed by simp
qed

text \<open>A first page with one record: the offset goes from 0 to 15 and the loop goes on.\<close>

theorem start_advances_iff_records_appended_witness:
  "pageItems sample_engine (net_pages 1 html_nine 0) sample_parser (pageUrl Movie (asc ''u'') 0) []
       Movie = Inr [simple_record ''T'' 9] \<and>
   pageStep sample_engine (net_pages 1 html_nine) sample_parser (asc ''u'') [] Movie 1 (initial []) =
     (Continue,
      snd (pageStep sample_engine (net_pages 1 html_nine) sample_parser (asc ''u'') [] Movie 1
             (initial []))) \<and>
   start (snd (pageStep sample_engine (net_pages 1 html_nine) sample_parser (asc ''u'') [] Movie 1
                 (initial []))) = start (initial []) + 15"
proof -
  have items: "pageItems sample_engine (net_pages 1 html_nine 0) sample_parser
      (pageUrl Movie (asc ''u'') 0) [] Movie = Inr [simple_record ''T'' 9]"
    by code_simp
  have fl: "fst (pageStep sample_engine (net_pages 1 html_nine) sample_parser (asc ''u'') [] Movie 1
      (initial [])) = Continue"
    using items by (simp add: pageStep_cases push_spread_def sample_engine_def)
  then have step: "pageStep sample_engine (net_pages 1 html_nine) sample_parser (asc ''u'') [] Movie 1
        (initial []) =
      (Continue,
       snd (pageStep sample_engine (net_pages 1 html_nine) sample_parser (asc ''u'') [] Movie 1
              (initial [])))"
    by (simp add: prod_eq_iff)
  from start_advances_iff_records_appended [where E = sample_engine
      and F = "net_pages 1 html_nine" and P = sample_parser
      and uid = "asc ''u''" and ck = "[]" and cat = Movie and page = 1 and st = "initial []"] step
  have "start (snd (pageStep sample_engine (net_pages 1 html_nine) sample_parser (asc ''u'') []
      Movie 1 (initial []))) = start (initial []) + 15"
    by blast
  with items step show ?thesis by blast
qed

subsection \<open>A failure after pages with records\<close>

lemma pageLoop_until_failure:
  assumes "k < maxPages"
    and "\<forall>i<k. pageItems E (F i) P (pageUrl cat uid (15 * i)) ck cat = Inr (items i) \<and>
                items i \<noteq> [] \<and> length (items i) \<le> E ReviewsPush"
    and "pageItems E (F k) P (pageUrl cat uid (15 * k)) ck cat = Inl e"
  shows "j \<le> k \<Longrightarrow> length (requested st) = j \<Longrightarrow> start st = 15 * j \<Longrightarrow>
         allReviews (pageLoop E F P uid ck cat (Suc j) st) = allReviews st @ concat (map items [j..<k]) \<and>
         requested (pageLoop E F P uid ck cat (Suc j) st) =
           requested st @ map (\<lambda>i. pageUrl cat uid (15 * i)) [j..<Suc k] \<and>
         last (logged (pageLoop E F P uid ck cat (Suc j) st)) = msg_stopped cat (message e)"
proof (induction "k - j" arbitrary: j st)
  case 0
  then have jk: "j = k" by simp
  have page: "Suc j \<le> maxPages" using assms(1) jk by simp
  have items: "pageItems E (F (length (requested st))) P (pageUrl cat uid (start st)) ck cat = Inl e"
    using assms(3) 0 jk by simp
  have step: "pageStep E F P uid ck cat (Suc j) st =
      (Break, onLog (msg_stopped cat (message e)) (after_request cat uid ck (Suc j) st))"
    by (simp add: pageStep_cases items)
  have "pageLoop E F P uid ck cat (Suc j) st =
      onLog (msg_stopped cat (message e)) (after_request cat uid ck (Suc j) st)"
    using pageLoop_break [OF page step] .
  then show ?case using 0 jk by simp
next
  case (Suc d)
  then have jk: "j < k" by simp
  have page: "Suc j \<le> maxPages" using assms(1) jk by simp
  have items: "pageItems E (F (length (requested st))) P (pageUrl cat uid (start st)) ck cat =
      Inr (items j)" and ne: "items j \<noteq> []" and fits: "length (items j) \<le> E ReviewsPush"
    using assms(2) jk Suc.prems by simp_all
  let ?st' = "(onLog (msg_captured (length (items j))) (after_request cat uid ck (Suc j) st))
      \<lparr>allReviews := allReviews st @ items j, start := start st + 15\<rparr>"
  have step: "pageStep E F P uid ck cat (Suc j) st = (Continue, ?st')"
    using fits by (simp add: pageStep_cases items ne push_spread_def)
  have loop: "pageLoop E F P uid ck cat (Suc j) st = pageLoop E F P uid ck cat (Suc (Suc j)) ?st'"
    using pageLoop_continue [OF page step] by simp
  have d: "d = k - Suc j" using Suc.hyps(2) by simp
  have IH: "allReviews (pageLoop E F P uid ck cat (Suc (Suc j)) ?st') =
        allReviews ?st' @ concat (map items [Suc j..<k]) \<and>
      requested (pageLoop E F P uid ck cat (Suc (Suc j)) ?st') =
        requested ?st' @ map (\<lambda>i. pageUrl cat uid (15 * i)) [Suc j..<Suc k] \<and>
      last (logged (pageLoop E F P uid ck cat (Suc (Suc j)) ?st')) = msg_stopped cat (message e)"
    using Suc.prems jk by (intro Suc.hyps(1) [OF d]) simp_all
  have up1: "[j..<k] = j # [Suc j..<k]" using jk by (simp add: upt_conv_Cons)
  have up2: "[j..<Suc k] = j # [Suc j..<Suc k]" using jk by (simp add: upt_conv_Cons)
  show ?case
    unfolding loop using IH Suc.prems by (simp add: up1 up2 del: upt_Suc)
qed

text \<open>
  C8.  Let the pages before page \<open>k + 1\<close> each be fetched and give at least one record,
  which is appended to the collection, and let page \<open>k + 1\<close> fail: the transport fails (as it does when the proxy reports a
  redirect or a refusal) or the page is a block page.  Then the pages of the offsets
  \<open>0, 15, ..., 15 k\<close> are the only ones requested, the last line of the log reports the
  stop with the message of the failure, and the records of the \<open>k\<close> pages before are all
  collected, in order: they are what \<^verbatim>\<open>crawlUserReviews\<close> returns.  (When the first page
  fails there is no record to keep, and the call fails with the error for an empty result.)
\<close>

theorem failure_keeps_earlier_pages:
  assumes "k < maxPages"
    and "\<forall>i<k. pageItems E (F i) P (pageUrl Movie uid (15 * i)) ck Movie = Inr (items i) \<and>
                items i \<noteq> [] \<and> length (items i) \<le> E ReviewsPush"
    and "pageItems E (F k) P (pageUrl Movie uid (15 * k)) ck Movie = Inl e"
  shows "requested (snd (crawlUserReviews E F P uid ck)) =
           map (\<lambda>i. pageUrl Movie uid (15 * i)) [0..<Suc k] \<and>
         last (logged (snd (crawlUserReviews E F P uid ck))) = msg_stopped Movie (message e) \<and>
         allReviews (snd (crawlUserReviews E F P uid ck)) = concat (map items [0..<k]) \<and>
         fst (crawlUserReviews E F P uid ck) =
           (if k = 0 then Inl (Error msg_empty) else Inr (concat (map items [0..<k])))"
proof -
  from pageLoop_until_failure [OF assms, of 0 "initial ck"]
  have run: "allReviews (snd (crawlUserReviews E F P uid ck)) = concat (map items [0..<k])"
      "requested (snd (crawlUserReviews E F P uid ck)) =
         map (\<lambda>i. pageUrl Movie uid (15 * i)) [0..<Suc k]"
      "last (logged (snd (crawlUserReviews E F P uid ck))) = msg_stopped Movie (message e)"
    by (simp_all add: crawl_single_category)
  have "concat (map items [0..<k]) \<noteq> []" if "0 < k"
  proof -
    have "items 0 \<noteq> []" using assms(2) that by simp
    moreover have "[0..<k] = 0 # [Suc 0..<k]" using that by (simp add: upt_conv_Cons)
    ultimately show ?thesis by simp
  qed
  then have "fst (crawlUserReviews E F P uid ck) =
      (if k = 0 then Inl (Error msg_empty) else Inr (concat (map items [0..<k])))"
    by (auto simp: crawl_fst run(1))
  with run show ?thesis by simp
qed

text \<open>Two pages with a record each, then the proxy's 403.\<close>

theorem failure_keeps_earlier_pages_witness:
  "pageItems sample_engine (net_pages 2 html_nine 0) sample_parser (pageUrl Movie (asc ''u'') 0) [] Movie =
     Inr [simple_record ''T'' 9] \<and>
   pageItems sample_engine (net_pages 2 html_nine 1) sample_parser (pageUrl Movie (asc ''u'') 15) [] Movie =
     Inr [simple_record ''T'' 9] \<and>
   pageItems sample_engine (net_pages 2 html_nine 2) sample_parser (pageUrl Movie (asc ''u'') 30) [] Movie =
     Inl (Error msg_403) \<and>
   requested (snd (crawlUserReviews sample_engine (net_pages 2 html_nine) sample_parser (asc ''u'') [])) =
     [pageUrl Movie (asc ''u'') 0, pageUrl Movie (asc ''u'') 15, pageUrl Movie (asc ''u'') 30] \<and>
   fst (crawlUserReviews sample_engine (net_pages 2 html_nine) sample_parser (asc ''u'') []) =
     Inr [simple_record ''T'' 9, simple_record ''T'' 9]"
proof -
  have p0: "pageItems sample_engine (net_pages 2 html_nine 0) sample_parser (pageUrl Movie (asc ''u'') 0) [] Movie =
      Inr [simple_record ''T'' 9]"
    by code_simp
  have p1: "pageItems sample_engine (net_pages 2 html_nine 1) sample_parser (pageUrl Movie (asc ''u'') 15) [] Movie =
      Inr [simple_record ''T'' 9]"
    by code_simp
  have p2: "pageItems sample_engine (net_pages 2 html_nine 2) sample_parser (pageUrl Movie (asc ''u'') 30) [] Movie =
      Inl (Error msg_403)"
    by code_simp
  have k: "(2::nat) < maxPages" by (simp add: maxPages_def)
  have before: "\<forall>i<2. pageItems sample_engine (net_pages 2 html_nine i) sample_parser
      (pageUrl Movie (asc ''u'') (15 * i)) [] Movie = Inr ((\<lambda>i. [simple_record ''T'' 9]) i) \<and>
      (\<lambda>i. [simple_record ''T'' 9]) i \<noteq> [] \<and>
      length ((\<lambda>i. [simple_record ''T'' 9]) i) \<le> sample_engine ReviewsPush"
    using p0 p1 by (auto simp: less_2_cases_iff sample_engine_def)
  have at: "pageItems sample_engine (net_pages 2 html_nine 2) sample_parser
      (pageUrl Movie (asc ''u'') (15 * 2)) [] Movie = Inl (Error msg_403)"
    using p2 by simp
  have up: "[0..<3] = [0, 1, 2::nat]" "[0..<2] = [0, 1::nat]"
    by (simp_all add: upt_conv_Cons)
  show ?thesis
    using p0 p1 p2 failure_keeps_earlier_pages [OF k before at]
    by (simp add: up numeral_3_eq_3 [symmetric])
qed

end
